theory Spec2Isabelle
  imports Complex_Main "HOL-Library.Word" "HOL-Library.Log_Nat"
begin

unbundle bit_operations_syntax

section \<open>Machine types and faults\<close>

type_synonym u8 = "8 word"
type_synonym u16 = "16 word"
type_synonym u32 = "32 word"
type_synonym u64 = "64 word"

text \<open>
  A finite single-precision value is the rational number it denotes. NaN and the
  infinities are not represented: the analog source is specified to deliver finite values.
\<close>

type_synonym f32 = rat

text \<open>
  Undefined behaviour of the C++ source is a value of the model: an access outside a
  container, and a floating-point to integer conversion whose truncated value the target
  type cannot hold.
\<close>

datatype fault = OutOfBounds | UndefinedConversion

text \<open>\<open>v[i]\<close> on a \<open>std::vector\<close>: defined only below \<open>v.size()\<close>.\<close>

definition vector_at :: "'a list \<Rightarrow> nat \<Rightarrow> fault + 'a" where
  "vector_at v i = (if i < length v then Inr (v ! i) else Inl OutOfBounds)"

text \<open>The iterator range \<open>[v.begin() + i, v.begin() + j)\<close>: defined for \<open>i \<le> j \<le> v.size()\<close>.\<close>

definition vector_range :: "'a list \<Rightarrow> nat \<Rightarrow> nat \<Rightarrow> fault + 'a list" where
  "vector_range v i j =
     (if i \<le> j \<and> j \<le> length v then Inr (take (j - i) (drop i v)) else Inl OutOfBounds)"

text \<open>
  \<open>std::memcpy(&x, data.data() + i, sizeof(u16))\<close> on the little-endian host the emulator
  targets: the byte at \<open>i\<close> is the low half.
\<close>

definition memcpy_u16 :: "u8 list \<Rightarrow> nat \<Rightarrow> fault + u16" where
  "memcpy_u16 data i =
     (case vector_at data i of Inl e \<Rightarrow> Inl e | Inr lo \<Rightarrow>
      case vector_at data (i + 1) of Inl e \<Rightarrow> Inl e | Inr hi \<Rightarrow>
        Inr (ucast lo OR push_bit 8 (ucast hi)))"

text \<open>The four bytes \<open>memcpy\<close> reads from a \<open>u32\<close> object on the little-endian host.\<close>

definition bytes_of_u32 :: "u32 \<Rightarrow> u8 list" where
  "bytes_of_u32 x = [ucast x, ucast (drop_bit 8 x), ucast (drop_bit 16 x), ucast (drop_bit 24 x)]"

text \<open>
  Modelled from the spec: \<open>Common::AlignDown\<close> of \<open>common/alignment.h\<close>, which is not among
  the sources. The spec says the value is rounded down to the nearest multiple of the
  alignment; the result has the type of the value.
\<close>

definition AlignDown :: "u16 \<Rightarrow> nat \<Rightarrow> u16" where
  "AlignDown val sz = word_of_nat (unat val - unat val mod sz)"

text \<open>
  Modelled from the spec: \<open>BitField<position, bits, T>\<close> of \<open>common/bit_field.h\<close>, which is
  not among the sources. A field occupies \<open>bits\<close> bits of its storage word from bit
  \<open>position\<close> upwards, low bits first; assigning replaces those bits by the low bits of
  the value and keeps the others.
\<close>

definition BitField_mask :: "nat \<Rightarrow> nat \<Rightarrow> 'a::len word" where
  "BitField_mask position bits = push_bit position (mask bits)"

definition BitField_Assign :: "nat \<Rightarrow> nat \<Rightarrow> 'a::len word \<Rightarrow> 'a word \<Rightarrow> 'a word" where
  "BitField_Assign position bits val storage =
     (storage AND NOT (BitField_mask position bits))
       OR (push_bit position val AND BitField_mask position bits)"

section \<open>Single-precision arithmetic\<close>

text \<open>
  IEEE 754 binary32 with the default rounding (to nearest, ties to even): 24 significant
  bits, the smallest spacing \<open>2\<^sup>-\<^sup>1\<^sup>4\<^sup>9\<close>. Overflow to infinity is not modelled; every value
  the status encoder computes from a finite axis below \<open>2\<^sup>1\<^sup>0\<^sup>0\<close> is far from it.
\<close>

definition pow2 :: "int \<Rightarrow> rat" where
  "pow2 e = (if 0 \<le> e then 2 ^ nat e else 1 / 2 ^ nat (- e))"

text \<open>The binary exponent \<open>\<lfloor>log\<^sub>2 \<bar>q\<bar>\<rfloor>\<close> of a non-zero rational.\<close>

definition ilog2 :: "rat \<Rightarrow> int" where
  "ilog2 q = (if 1 \<le> \<bar>q\<bar> then bitlen \<lfloor>\<bar>q\<bar>\<rfloor> - 1 else - bitlen (\<lceil>1 / \<bar>q\<bar>\<rceil> - 1))"

definition round_half_even :: "rat \<Rightarrow> int" where
  "round_half_even q =
     (let f = \<lfloor>q\<rfloor>; r = q - of_int f
      in if r < 1 / 2 then f else if 1 / 2 < r then f + 1 else if even f then f else f + 1)"

definition f32_round :: "rat \<Rightarrow> f32" where
  "f32_round q =
     (if q = 0 then 0
      else let k = max (ilog2 q - 23) (- 149)
           in of_int (round_half_even (q / pow2 k)) * pow2 k)"

definition f32_mul :: "f32 \<Rightarrow> f32 \<Rightarrow> f32" where
  "f32_mul a b = f32_round (a * b)"

definition f32_add :: "f32 \<Rightarrow> f32 \<Rightarrow> f32" where
  "f32_add a b = f32_round (a + b)"

text \<open>The implicit conversion of an \<open>int\<close> operand to \<open>float\<close>.\<close>

definition int_to_f32 :: "int \<Rightarrow> f32" where
  "int_to_f32 i = f32_round (of_int i)"

text \<open>
  \<open>static_cast<u32>\<close> of a \<open>float\<close>: the fractional part is discarded (truncation towards
  zero); the behaviour is undefined when the truncated value is not a \<open>u32\<close>.
\<close>

definition float_to_u32 :: "f32 \<Rightarrow> fault + u32" where
  "float_to_u32 v =
     (let t = (if 0 \<le> v then \<lfloor>v\<rfloor> else \<lceil>v\<rceil>)
      in if 0 \<le> t \<and> t < 2 ^ 32 then Inr (word_of_int t) else Inl UndefinedConversion)"

section \<open>The peripheral and the services it calls\<close>

text \<open>
  Every call the peripheral makes to a collaborator outside this file (the transport's
  \<open>send_func\<close>, \<open>CoreTiming\<close>, \<open>Input::CreateDevice\<close>) is appended to a log, oldest first.
\<close>

datatype call =
    Send "u8 list"
  | RegisterEvent string
  | ScheduleEvent_call int nat u64
  | UnscheduleEvent_call nat u64
  | CreateButtonDevice string
  | CreateAnalogDevice string

text \<open>
  The members of \<open>ExtraHID\<close>. An input device handle is identified with the parameter
  string it was created from.
\<close>

record ExtraHID =
  zl :: string
  zr :: string
  c_stick :: string
  hid_period :: u8
  calibration_data :: "u8 list"
  is_device_reload_pending :: bool
  send_callback :: nat

text \<open>
  The peripheral together with what it reaches through globals: the event queue of
  \<open>CoreTiming\<close> (deadline, event type, user data), the configured input mapping of
  \<open>Settings::values\<close>, and the live state of the physical input sources.
\<close>

record world =
  device :: ExtraHID
  global_timer :: int
  event_types :: "string list"
  event_queue :: "(int \<times> nat \<times> u64) list"
  calls :: "call list"
  buttons_ZL :: string
  buttons_ZR :: string
  analogs_CStick :: string
  button_status :: "string \<Rightarrow> bool"
  analog_status :: "string \<Rightarrow> f32 \<times> f32"

definition send_func :: "u8 list \<Rightarrow> world \<Rightarrow> world" where
  "send_func bytes w = w\<lparr>calls := calls w @ [Send bytes]\<rparr>"

text \<open>The packets handed to the transport so far, oldest first.\<close>

fun sent :: "call list \<Rightarrow> u8 list list" where
  "sent [] = []"
| "sent (Send bytes # cs) = bytes # sent cs"
| "sent (c # cs) = sent cs"

text \<open>
  Modelled from the spec: the event-scheduling service \<open>CoreTiming\<close> of
  \<open>core/core_timing.h\<close>, which is not among the sources. Registering an event type yields
  its handle; scheduling adds one pending callback due the given number of ticks after the
  current time; cancelling removes every pending callback of the handle and user data and
  is safe when nothing is pending. The source schedules without naming user data; the
  value its cancellations name, 0, is recorded.
\<close>

definition CoreTiming_RegisterEvent :: "string \<Rightarrow> world \<Rightarrow> nat \<times> world" where
  "CoreTiming_RegisterEvent name w =
     (length (event_types w),
      w\<lparr>event_types := event_types w @ [name], calls := calls w @ [RegisterEvent name]\<rparr>)"

definition CoreTiming_ScheduleEvent :: "int \<Rightarrow> nat \<Rightarrow> u64 \<Rightarrow> world \<Rightarrow> world" where
  "CoreTiming_ScheduleEvent cycles_into_future event_type userdata w =
     w\<lparr>event_queue := event_queue w @ [(global_timer w + cycles_into_future, event_type, userdata)],
       calls := calls w @ [ScheduleEvent_call cycles_into_future event_type userdata]\<rparr>"

definition CoreTiming_UnscheduleEvent :: "nat \<Rightarrow> u64 \<Rightarrow> world \<Rightarrow> world" where
  "CoreTiming_UnscheduleEvent event_type userdata w =
     w\<lparr>event_queue := filter (\<lambda>(t, e, u). \<not> (e = event_type \<and> u = userdata)) (event_queue w),
       calls := calls w @ [UnscheduleEvent_call event_type userdata]\<rparr>"

section \<open>extra\_hid.cpp\<close>

definition RequestID_ReadHIDStatus :: u8 where
  "RequestID_ReadHIDStatus = 1"

definition RequestID_ReadCalibrationData :: u8 where
  "RequestID_ReadCalibrationData = 2"

definition ResponseID_ReadHIDStatus :: u8 where
  "ResponseID_ReadHIDStatus = 0x10"

definition ResponseID_ReadCalibrationData :: u8 where
  "ResponseID_ReadCalibrationData = 0x11"

definition LoadInputDevices :: "world \<Rightarrow> world" where
  "LoadInputDevices w =
     w\<lparr>device := (device w)\<lparr>zl := buttons_ZL w, zr := buttons_ZR w, c_stick := analogs_CStick w\<rparr>,
       calls := calls w @ [CreateButtonDevice (buttons_ZL w), CreateButtonDevice (buttons_ZR w),
                           CreateAnalogDevice (analogs_CStick w)]\<rparr>"

definition factory_calibration :: "u8 list" where
  "factory_calibration =
     [0x00, 0x00, 0x08, 0x80, 0x85, 0xEB, 0x11, 0x3F,
      0x85, 0xEB, 0x11, 0x3F, 0xFF, 0xFF, 0xFF, 0xF5,
      0xFF, 0x00, 0x08, 0x80, 0x85, 0xEB, 0x11, 0x3F,
      0x85, 0xEB, 0x11, 0x3F, 0xFF, 0xFF, 0xFF, 0x65,
      0xFF, 0x00, 0x08, 0x80, 0x85, 0xEB, 0x11, 0x3F,
      0x85, 0xEB, 0x11, 0x3F, 0xFF, 0xFF, 0xFF, 0x65,
      0xFF, 0x00, 0x08, 0x80, 0x85, 0xEB, 0x11, 0x3F,
      0x85, 0xEB, 0x11, 0x3F, 0xFF, 0xFF, 0xFF, 0x65]"

text \<open>
  The constructor. It assigns neither \<open>hid_period\<close> nor \<open>is_device_reload_pending\<close>; they
  keep whatever the incoming \<open>device\<close> holds.
\<close>

definition ExtraHID_ctor :: "world \<Rightarrow> world" where
  "ExtraHID_ctor w =
     (let w1 = LoadInputDevices w;
          w2 = w1\<lparr>device := (device w1)\<lparr>calibration_data := factory_calibration\<rparr>\<rparr>;
          (h, w3) = CoreTiming_RegisterEvent ''ExtraHID::SendHIDStatus'' w2
      in w3\<lparr>device := (device w3)\<lparr>send_callback := h\<rparr>\<rparr>)"

definition Connect :: "world \<Rightarrow> world" where
  "Connect w = w"

definition Disconnect :: "world \<Rightarrow> world" where
  "Disconnect w = CoreTiming_UnscheduleEvent (send_callback (device w)) 0 w"

text \<open>
  The handlers log an error (not modelled) and return on a request of the wrong size.
  \<open>msToCycles\<close> of \<open>core/core_timing.h\<close> is not among the sources and is a parameter.
\<close>

definition HandleReadHIDStatusRequest :: "(int \<Rightarrow> int) \<Rightarrow> u8 list \<Rightarrow> world \<Rightarrow> fault + world" where
  "HandleReadHIDStatusRequest msToCycles data w =
     (if length data \<noteq> 3 then Inr w
      else let w1 = CoreTiming_UnscheduleEvent (send_callback (device w)) 0 w
           in case vector_at data 1 of Inl e \<Rightarrow> Inl e | Inr p \<Rightarrow>
              let w2 = w1\<lparr>device := (device w1)\<lparr>hid_period := p\<rparr>\<rparr>
              in Inr (CoreTiming_ScheduleEvent (msToCycles (uint (hid_period (device w2))))
                        (send_callback (device w2)) 0 w2))"

definition HandleReadCalibrationDataRequest :: "u8 list \<Rightarrow> world \<Rightarrow> fault + world" where
  "HandleReadCalibrationDataRequest data w =
     (if length data \<noteq> 6 then Inr w
      else case memcpy_u16 data 2 of Inl e \<Rightarrow> Inl e | Inr offset0 \<Rightarrow>
           case memcpy_u16 data 4 of Inl e \<Rightarrow> Inl e | Inr size0 \<Rightarrow>
           let offs = AlignDown offset0 16;
               sz = AlignDown size0 16
           in if uint offs + uint sz > int (length (calibration_data (device w))) then Inr w
              else case vector_range data 2 6 of Inl e \<Rightarrow> Inl e | Inr echo \<Rightarrow>
                   case vector_range (calibration_data (device w)) (unat offs) (unat offs + unat sz) of
                     Inl e \<Rightarrow> Inl e
                   | Inr window \<Rightarrow>
                       Inr (send_func ([ResponseID_ReadCalibrationData] @ echo @ window) w))"

definition Receive :: "(int \<Rightarrow> int) \<Rightarrow> u8 list \<Rightarrow> world \<Rightarrow> fault + world" where
  "Receive msToCycles data w =
     (case vector_at data 0 of Inl e \<Rightarrow> Inl e | Inr request \<Rightarrow>
        if request = RequestID_ReadHIDStatus then HandleReadHIDStatusRequest msToCycles data w
        else if request = RequestID_ReadCalibrationData then HandleReadCalibrationDataRequest data w
        else Inr w)"

definition C_STICK_CENTER :: int where
  "C_STICK_CENTER = 0x800"

definition C_STICK_RADIUS :: int where
  "C_STICK_RADIUS = 0x7FF"

text \<open>
  The expression \<open>static_cast<u32>(C_STICK_CENTER + C_STICK_RADIUS * x)\<close>, which the source
  writes once for each axis: the \<open>int\<close> constants are converted to \<open>float\<close>, the product
  and the sum are each rounded to single precision, and the cast truncates.
\<close>

definition c_stick_to_u32 :: "f32 \<Rightarrow> fault + u32" where
  "c_stick_to_u32 x =
     float_to_u32 (f32_add (int_to_f32 C_STICK_CENTER) (f32_mul (int_to_f32 C_STICK_RADIUS) x))"

text \<open>
  \<open>uninit\<close> is the indeterminate content of the local \<open>response\<close> before the first
  assignment: the storage of the \<open>c_stick\<close> union and of the \<open>buttons\<close> union.
\<close>

definition SendHIDStatus :: "(int \<Rightarrow> int) \<Rightarrow> u32 \<times> u8 \<Rightarrow> int \<Rightarrow> world \<Rightarrow> fault + world" where
  "SendHIDStatus msToCycles uninit cycles_late w =
     (let w0 = w\<lparr>device := (device w)\<lparr>is_device_reload_pending := False\<rparr>\<rparr>;
          w1 = (if is_device_reload_pending (device w) then LoadInputDevices w0 else w0);
          c0 = BitField_Assign 0 8 (ucast ResponseID_ReadHIDStatus) (fst uninit);
          (x, y) = analog_status w1 (c_stick (device w1))
      in case c_stick_to_u32 x of Inl e \<Rightarrow> Inl e | Inr xq \<Rightarrow>
         case c_stick_to_u32 y of Inl e \<Rightarrow> Inl e | Inr yq \<Rightarrow>
         let c1 = BitField_Assign 8 12 xq c0;
             c2 = BitField_Assign 20 12 yq c1;
             b0 = BitField_Assign 0 5 0x1F (snd uninit);
             b1 = BitField_Assign 5 1 (of_bool (\<not> button_status w1 (zl (device w1)))) b0;
             b2 = BitField_Assign 6 1 (of_bool (\<not> button_status w1 (zr (device w1)))) b1;
             b3 = BitField_Assign 7 1 1 b2;
             unknown = 0;
             response_buffer = bytes_of_u32 c2 @ [b3, unknown];
             w2 = send_func response_buffer w1
         in Inr (CoreTiming_ScheduleEvent (msToCycles (uint (hid_period (device w2))) - cycles_late)
                   (send_callback (device w2)) 0 w2))"

definition ReloadInputDevices :: "world \<Rightarrow> world" where
  "ReloadInputDevices w = w\<lparr>device := (device w)\<lparr>is_device_reload_pending := True\<rparr>\<rparr>"

section \<open>A concrete host\<close>

text \<open>
  A host used to run the operations on concrete inputs: the configured sources are named
  \<open>zl\<close>, \<open>zr\<close> and \<open>cstick\<close>; ZL is held down, ZR is not, and the stick rests at
  \<open>(1/4, -1)\<close>. The device has just been constructed.
\<close>

definition blank_host :: world where
  "blank_host =
     \<lparr>device = \<lparr>zl = [], zr = [], c_stick = [], hid_period = 0, calibration_data = [],
                 is_device_reload_pending = False, send_callback = 0\<rparr>,
      global_timer = 1000, event_types = [], event_queue = [], calls = [],
      buttons_ZL = ''zl'', buttons_ZR = ''zr'', analogs_CStick = ''cstick'',
      button_status = (\<lambda>p. p = ''zl''),
      analog_status = (\<lambda>p. if p = ''cstick'' then (1 / 4, - 1) else (0, 0))\<rparr>"

definition sample_world :: world where
  "sample_world = ExtraHID_ctor blank_host"

section \<open>Notions of the specification\<close>

text \<open>
  The words of the specification, written independently of the code: rounding down to a
  multiple of 16, the raw little-endian offset and size of a calibration-read request, and
  the sub-sequence \<open>xs[a : b]\<close>.
\<close>

definition floor16 :: "nat \<Rightarrow> nat" where
  "floor16 n = 16 * (n div 16)"

definition request_offset :: "u8 list \<Rightarrow> nat" where
  "request_offset data = unat (data ! 2) + 256 * unat (data ! 3)"

definition request_size :: "u8 list \<Rightarrow> nat" where
  "request_size data = unat (data ! 4) + 256 * unat (data ! 5)"

definition subsequence :: "'a list \<Rightarrow> nat \<Rightarrow> nat \<Rightarrow> 'a list" where
  "subsequence xs a b = map (\<lambda>i. xs ! i) [a..<b]"

text \<open>
  The four leading bytes of a packet read as a little-endian 32-bit word; the handles a
  broadcast tick samples through (the configured sources when a reload is pending, the
  handles the device holds otherwise); and the input-device creations among the calls.
\<close>

definition u32_of_bytes :: "u8 list \<Rightarrow> u32" where
  "u32_of_bytes bs = ucast (bs ! 0) OR push_bit 8 (ucast (bs ! 1)) OR push_bit 16 (ucast (bs ! 2))
     OR push_bit 24 (ucast (bs ! 3))"

definition tick_zl :: "world \<Rightarrow> string" where
  "tick_zl w = (if is_device_reload_pending (device w) then buttons_ZL w else zl (device w))"

definition tick_zr :: "world \<Rightarrow> string" where
  "tick_zr w = (if is_device_reload_pending (device w) then buttons_ZR w else zr (device w))"

definition tick_c_stick :: "world \<Rightarrow> string" where
  "tick_c_stick w = (if is_device_reload_pending (device w) then analogs_CStick w else c_stick (device w))"

definition created :: "call list \<Rightarrow> call list" where
  "created cs = filter (\<lambda>c. case c of CreateButtonDevice p \<Rightarrow> True | CreateAnalogDevice p \<Rightarrow> True | _ \<Rightarrow> False) cs"

text \<open>
  The axes a tick samples lie in the range the input layer promises; the pending broadcast
  callbacks of the device in the event queue, and the pending events of everyone else.
\<close>

definition axes_in_range :: "world \<Rightarrow> bool" where
  "axes_in_range w =
     (- 1 \<le> fst (analog_status w (tick_c_stick w)) \<and> fst (analog_status w (tick_c_stick w)) \<le> 1
      \<and> - 1 \<le> snd (analog_status w (tick_c_stick w)) \<and> snd (analog_status w (tick_c_stick w)) \<le> 1)"

definition own_tick :: "nat \<Rightarrow> int \<times> nat \<times> u64 \<Rightarrow> bool" where
  "own_tick h ev = (fst (snd ev) = h \<and> snd (snd ev) = 0)"

definition pending_ticks :: "world \<Rightarrow> (int \<times> nat \<times> u64) list" where
  "pending_ticks w = filter (own_tick (send_callback (device w))) (event_queue w)"

definition other_events :: "world \<Rightarrow> (int \<times> nat \<times> u64) list" where
  "other_events w = filter (\<lambda>ev. \<not> own_tick (send_callback (device w)) ev) (event_queue w)"

text \<open>The tick conversion used when the operations are run on concrete inputs.\<close>

definition sample_msToCycles :: "int \<Rightarrow> int" where
  "sample_msToCycles ms = 268123 * ms"

text \<open>
  Further concrete states: the device after the request \<open>[1, 5, 0]\<close>; the same when its
  callback fires 7 ticks after the deadline; a freshly constructed device whose input
  mapping was changed and flagged for reload; and a device whose stick rests at a given
  position.
\<close>

definition armed_world :: world where
  "armed_world = projr (Receive sample_msToCycles [1, 5, 0] sample_world)"

definition late_world :: world where
  "late_world = armed_world\<lparr>global_timer := 1341622, event_queue := []\<rparr>"

definition remapped_world :: world where
  "remapped_world = ReloadInputDevices (sample_world\<lparr>buttons_ZL := ''l2'', analogs_CStick := ''pad''\<rparr>)"

definition world_with_axes :: "f32 \<Rightarrow> f32 \<Rightarrow> world" where
  "world_with_axes x y = sample_world\<lparr>analog_status := (\<lambda>p. (x, y))\<rparr>"

section \<open>Helper facts\<close>

lemma unat_le16: "unat (ucast (lo :: u8) OR push_bit 8 (ucast (hi :: u8)) :: u16) = unat lo + 256 * unat hi"
proof -
  have d: "(ucast lo :: u16) AND push_bit 8 (ucast hi) = 0"
    by (rule bit_word_eqI) (auto simp: bit_simps dest: bit_imp_le_length)
  have e: "(ucast lo OR push_bit 8 (ucast hi) :: u16) = ucast lo + push_bit 8 (ucast hi)"
    using d by (simp add: disjunctive_add_eq_or)
  have lo: "unat lo < 256" and hi: "unat hi < 256"
    using unsigned_less [of lo, where ?'a = nat] unsigned_less [of hi, where ?'a = nat] by simp_all
  have a: "unat (ucast lo :: u16) = unat lo"
    using lo by (simp add: unsigned_ucast_eq take_bit_nat_eq_self)
  have b: "unat (push_bit 8 (ucast hi :: u16)) = 256 * unat hi"
    using hi by (simp add: push_bit_eq_mult unat_word_ariths unsigned_ucast_eq take_bit_nat_eq_self)
  have "unat (ucast lo + push_bit 8 (ucast hi) :: u16) = unat lo + 256 * unat hi"
    using lo hi a b by (simp add: unat_word_ariths)
  with e show ?thesis by simp
qed

lemma AlignDown_16: "unat (AlignDown v 16) = floor16 (unat v)"
proof -
  have "unat v - unat v mod 16 \<le> unat v" by simp
  then have "unat (word_of_nat (unat v - unat v mod 16) :: u16) = unat v - unat v mod 16"
    by (rule le_unat_uoi)
  then show ?thesis
    by (simp add: AlignDown_def floor16_def minus_mod_eq_mult_div)
qed

lemma subsequence_take_drop: "a + n \<le> length xs \<Longrightarrow> take n (drop a xs) = subsequence xs a (a + n)"
  unfolding subsequence_def by (rule nth_equalityI) auto

lemma vector_range_subsequence:
  "a + n \<le> length v \<Longrightarrow> vector_range v a (a + n) = Inr (subsequence v a (a + n))"
  by (simp add: vector_range_def subsequence_take_drop)

lemma length_3_list: "length xs = 3 \<Longrightarrow> \<exists>a b c. xs = [a, b, c]"
  by (auto simp: numeral_eq_Suc length_Suc_conv)

lemma length_6_list: "length xs = 6 \<Longrightarrow> \<exists>a b c d e f. xs = [a, b, c, d, e, f]"
  by (auto simp: numeral_eq_Suc length_Suc_conv)

lemma sample_world_blob: "calibration_data (device sample_world) = factory_calibration"
  by (simp add: sample_world_def ExtraHID_ctor_def CoreTiming_RegisterEvent_def LoadInputDevices_def Let_def)

lemma HandleReadCalibrationDataRequest_6:
  assumes "length (calibration_data (device w)) = 64"
  shows "HandleReadCalibrationDataRequest [a, b, c, d, e, f] w =
     (let offs = floor16 (unat c + 256 * unat d); sz = floor16 (unat e + 256 * unat f)
      in if 64 < offs + sz then Inr w
         else Inr (w\<lparr>calls := calls w @
                [Send ([0x11, c, d, e, f] @ subsequence (calibration_data (device w)) offs (offs + sz))]\<rparr>))"
proof -
  have m2: "memcpy_u16 [a, b, c, d, e, f] 2 = Inr (ucast c OR push_bit 8 (ucast d))"
    by (simp add: memcpy_u16_def vector_at_def)
  have m4: "memcpy_u16 [a, b, c, d, e, f] 4 = Inr (ucast e OR push_bit 8 (ucast f))"
    by (simp add: memcpy_u16_def vector_at_def)
  have r: "vector_range [a, b, c, d, e, f] 2 6 = Inr [c, d, e, f]"
    by (simp add: vector_range_def numeral_eq_Suc)
  have cmp: "(64 < uint X + uint Y) = (64 < unat X + unat Y)" for X Y :: u16
    unfolding uint_nat by linarith
  show ?thesis
    unfolding HandleReadCalibrationDataRequest_def m2 m4 r Let_def
    using assms
    by (simp add: cmp vector_range_subsequence AlignDown_16 unat_le16 send_func_def ResponseID_ReadCalibrationData_def)
qed

lemma HandleReadCalibrationDataRequest_returns:
  "\<exists>w'. HandleReadCalibrationDataRequest data w = Inr w'"
proof (cases "length data = 6")
  case False
  then show ?thesis by (simp add: HandleReadCalibrationDataRequest_def)
next
  case True
  then obtain a b c d e f where data: "data = [a, b, c, d, e, f]"
    using length_6_list by blast
  have m2: "memcpy_u16 [a, b, c, d, e, f] 2 = Inr (ucast c OR push_bit 8 (ucast d))"
    by (simp add: memcpy_u16_def vector_at_def)
  have m4: "memcpy_u16 [a, b, c, d, e, f] 4 = Inr (ucast e OR push_bit 8 (ucast f))"
    by (simp add: memcpy_u16_def vector_at_def)
  have r: "vector_range [a, b, c, d, e, f] 2 6 = Inr [c, d, e, f]"
    by (simp add: vector_range_def numeral_eq_Suc)
  have win: "\<exists>ys. vector_range v (unat X) (unat X + unat Y) = Inr ys"
    if "\<not> int (length v) < uint X + uint Y" for X Y :: u16 and v :: "u8 list"
  proof -
    have "unat X + unat Y \<le> length v"
      using that unfolding uint_nat by linarith
    then show ?thesis by (simp add: vector_range_def)
  qed
  let ?X = "AlignDown (ucast c OR push_bit 8 (ucast d)) 16"
  let ?Y = "AlignDown (ucast e OR push_bit 8 (ucast f)) 16"
  show ?thesis
  proof (cases "int (length (calibration_data (device w))) < uint ?X + uint ?Y")
    case True
    then show ?thesis
      unfolding data HandleReadCalibrationDataRequest_def m2 m4 r Let_def by simp
  next
    case False
    from win [OF False] obtain ys
      where "vector_range (calibration_data (device w)) (unat ?X) (unat ?X + unat ?Y) = Inr ys" ..
    with False show ?thesis
      unfolding data HandleReadCalibrationDataRequest_def m2 m4 r Let_def by simp
  qed
qed

lemma HandleReadHIDStatusRequest_returns:
  "\<exists>w'. HandleReadHIDStatusRequest msToCycles data w = Inr w'"
  by (cases "length data = 3") (auto simp: HandleReadHIDStatusRequest_def vector_at_def Let_def)

subsection \<open>The status packet\<close>

lemma bit_BitField_Assign:
  "bit (BitField_Assign p k v s :: 'a::len word) n \<longleftrightarrow>
     (if p \<le> n \<and> n < p + k then n < LENGTH('a) \<and> bit v (n - p) else bit s n)"
  unfolding BitField_Assign_def BitField_mask_def
  by (auto simp: bit_simps dest: bit_imp_le_length)

lemma c_stick_storage:
  fixes u h xq yq :: u32
  defines "c \<equiv> BitField_Assign 20 12 yq (BitField_Assign 8 12 xq (BitField_Assign 0 8 h u))"
  shows "take_bit 8 c = take_bit 8 h" and "take_bit 12 (drop_bit 8 c) = take_bit 12 xq"
    and "drop_bit 20 c = take_bit 12 yq"
  unfolding c_def
  by (rule bit_word_eqI; auto simp: bit_BitField_Assign bit_simps dest: bit_imp_le_length)+

lemma buttons_storage:
  fixes u :: u8 and l r :: bool
  defines "b \<equiv> BitField_Assign 7 1 1 (BitField_Assign 6 1 (of_bool r)
                 (BitField_Assign 5 1 (of_bool l) (BitField_Assign 0 5 (mask 5) u)))"
  shows "take_bit 5 b = mask 5" and "bit b 5 = l" and "bit b 6 = r" and "bit b 7"
  unfolding b_def
     apply (rule bit_word_eqI; auto simp: bit_BitField_Assign bit_simps)
    apply (auto simp: bit_BitField_Assign bit_simps)
  done

lemma u32_bytes_recombine:
  "ucast (ucast c :: u8) OR push_bit 8 (ucast (ucast (drop_bit 8 c) :: u8))
     OR push_bit 16 (ucast (ucast (drop_bit 16 c) :: u8))
     OR push_bit 24 (ucast (ucast (drop_bit 24 c) :: u8)) = (c :: u32)"
  (is "?W = c")
proof (rule bit_word_eqI)
  fix n
  assume "n < LENGTH(32)"
  then consider "n < 8" | "8 \<le> n" "n < 16" | "16 \<le> n" "n < 24" | "24 \<le> n" "n < 32"
    by fastforce
  then show "bit ?W n = bit c n"
    by cases (auto simp: bit_simps)
qed

lemma u32_of_bytes_of_u32: "u32_of_bytes (bytes_of_u32 c @ rest) = c"
  by (simp add: u32_of_bytes_def bytes_of_u32_def u32_bytes_recombine)

lemma sent_append [simp]: "sent (cs @ ds) = sent cs @ sent ds"
  by (induction cs rule: sent.induct) simp_all

lemma status_packet_layout:
  fixes xq yq s32 :: u32 and s8 :: u8 and l r :: bool
  defines "pkt \<equiv>
     bytes_of_u32 (BitField_Assign 20 12 yq (BitField_Assign 8 12 xq
        (BitField_Assign 0 8 (ucast ResponseID_ReadHIDStatus) s32)))
     @ [BitField_Assign 7 1 1 (BitField_Assign 6 1 (of_bool r)
          (BitField_Assign 5 1 (of_bool l) (BitField_Assign 0 5 0x1F s8))), 0]"
  shows "length pkt = 6"
    and "take_bit 8 (u32_of_bytes pkt) = 0x10"
    and "take_bit 12 (drop_bit 8 (u32_of_bytes pkt)) = take_bit 12 xq"
    and "drop_bit 20 (u32_of_bytes pkt) = take_bit 12 yq"
    and "take_bit 5 (pkt ! 4) = 0x1F"
    and "bit (pkt ! 4) 5 = l"
    and "bit (pkt ! 4) 6 = r"
    and "bit (pkt ! 4) 7"
    and "pkt ! 5 = 0"
proof -
  have m: "(0x1F :: u8) = mask 5" by (simp add: mask_eq_exp_minus_1)
  show "length pkt = 6" by (simp add: pkt_def bytes_of_u32_def)
  show "take_bit 8 (u32_of_bytes pkt) = 0x10"
    unfolding pkt_def u32_of_bytes_of_u32 c_stick_storage
    by (simp add: ResponseID_ReadHIDStatus_def)
  show "take_bit 12 (drop_bit 8 (u32_of_bytes pkt)) = take_bit 12 xq"
    unfolding pkt_def u32_of_bytes_of_u32 c_stick_storage ..
  show "drop_bit 20 (u32_of_bytes pkt) = take_bit 12 yq"
    unfolding pkt_def u32_of_bytes_of_u32 c_stick_storage ..
  have b: "pkt ! 4 = BitField_Assign 7 1 1 (BitField_Assign 6 1 (of_bool r)
          (BitField_Assign 5 1 (of_bool l) (BitField_Assign 0 5 (mask 5) s8)))"
    unfolding m [symmetric] by (simp add: pkt_def bytes_of_u32_def)
  show "take_bit 5 (pkt ! 4) = 0x1F" unfolding b buttons_storage m ..
  show "bit (pkt ! 4) 5 = l" unfolding b buttons_storage ..
  show "bit (pkt ! 4) 6 = r" unfolding b buttons_storage ..
  show "bit (pkt ! 4) 7" unfolding b by (rule buttons_storage)
  show "pkt ! 5 = 0" by (simp add: pkt_def bytes_of_u32_def)
qed

lemma SendHIDStatus_Inr:
  assumes "SendHIDStatus msToCycles uninit cycles_late w = Inr w'"
  shows "\<exists>xq yq pkt.
     c_stick_to_u32 (fst (analog_status w (tick_c_stick w))) = Inr xq
     \<and> c_stick_to_u32 (snd (analog_status w (tick_c_stick w))) = Inr yq
     \<and> length pkt = 6
     \<and> take_bit 8 (u32_of_bytes pkt) = 0x10
     \<and> take_bit 12 (drop_bit 8 (u32_of_bytes pkt)) = take_bit 12 xq
     \<and> drop_bit 20 (u32_of_bytes pkt) = take_bit 12 yq
     \<and> take_bit 5 (pkt ! 4) = 0x1F
     \<and> bit (pkt ! 4) 5 = (\<not> button_status w (tick_zl w))
     \<and> bit (pkt ! 4) 6 = (\<not> button_status w (tick_zr w))
     \<and> bit (pkt ! 4) 7
     \<and> pkt ! 5 = 0
     \<and> w' = w\<lparr>device := (device w)\<lparr>zl := tick_zl w, zr := tick_zr w, c_stick := tick_c_stick w,
                   is_device_reload_pending := False\<rparr>,
              event_queue := event_queue w @
                [(global_timer w + (msToCycles (uint (hid_period (device w))) - cycles_late),
                  send_callback (device w), 0)],
              calls := calls w @
                (if is_device_reload_pending (device w)
                 then [CreateButtonDevice (buttons_ZL w), CreateButtonDevice (buttons_ZR w),
                       CreateAnalogDevice (analogs_CStick w)]
                 else []) @
                [Send pkt,
                 ScheduleEvent_call (msToCycles (uint (hid_period (device w))) - cycles_late)
                   (send_callback (device w)) 0]\<rparr>"
proof -
  obtain x y where xy: "analog_status w (tick_c_stick w) = (x, y)"
    by (cases "analog_status w (tick_c_stick w)")
  from assms xy obtain xq yq where xq: "c_stick_to_u32 x = Inr xq" and yq: "c_stick_to_u32 y = Inr yq"
    by (cases "is_device_reload_pending (device w)")
      (auto simp: SendHIDStatus_def Let_def LoadInputDevices_def tick_c_stick_def split: sum.splits)
  define pkt where "pkt =
     bytes_of_u32 (BitField_Assign 20 12 yq (BitField_Assign 8 12 xq
        (BitField_Assign 0 8 (ucast ResponseID_ReadHIDStatus) (fst uninit))))
     @ [BitField_Assign 7 1 1 (BitField_Assign 6 1 (of_bool (\<not> button_status w (tick_zr w)))
          (BitField_Assign 5 1 (of_bool (\<not> button_status w (tick_zl w)))
             (BitField_Assign 0 5 0x1F (snd uninit)))), 0]"
  have w': "w' = w\<lparr>device := (device w)\<lparr>zl := tick_zl w, zr := tick_zr w, c_stick := tick_c_stick w,
                   is_device_reload_pending := False\<rparr>,
              event_queue := event_queue w @
                [(global_timer w + (msToCycles (uint (hid_period (device w))) - cycles_late),
                  send_callback (device w), 0)],
              calls := calls w @
                (if is_device_reload_pending (device w)
                 then [CreateButtonDevice (buttons_ZL w), CreateButtonDevice (buttons_ZR w),
                       CreateAnalogDevice (analogs_CStick w)]
                 else []) @
                [Send pkt,
                 ScheduleEvent_call (msToCycles (uint (hid_period (device w))) - cycles_late)
                   (send_callback (device w)) 0]\<rparr>"
    using assms xy xq yq
    by (cases "is_device_reload_pending (device w)")
      (auto simp: SendHIDStatus_def Let_def LoadInputDevices_def tick_c_stick_def tick_zl_def
        tick_zr_def send_func_def CoreTiming_ScheduleEvent_def pkt_def)
  show ?thesis
    using xy xq yq w' status_packet_layout [of yq xq "fst uninit" "\<not> button_status w (tick_zr w)"
        "\<not> button_status w (tick_zl w)" "snd uninit", folded pkt_def]
    by (intro exI [of _ xq] exI [of _ yq] exI [of _ pkt]) simp
qed

subsection \<open>Single-precision rounding\<close>

lemma ilog2_less:
  assumes "q \<noteq> 0" and "\<bar>q\<bar> < 2 ^ n"
  shows "ilog2 q < int n"
proof (cases "1 \<le> \<bar>q\<bar>")
  case True
  have "\<lfloor>\<bar>q\<bar>\<rfloor> < 2 ^ n"
    using assms(2) by (simp add: floor_less_iff)
  then have "bitlen \<lfloor>\<bar>q\<bar>\<rfloor> \<le> int n"
    by (simp add: bitlen_le_iff_power)
  with True show ?thesis by (simp add: ilog2_def)
next
  case False
  then have "1 < 1 / \<bar>q\<bar>" using assms(1) by simp
  then have "0 < \<lceil>1 / \<bar>q\<bar>\<rceil> - 1" by (simp add: less_ceiling_iff)
  then have "bitlen (\<lceil>1 / \<bar>q\<bar>\<rceil> - 1) \<noteq> 0" by (simp add: bitlen_eq_zero_iff)
  with bitlen_nonneg [of "\<lceil>1 / \<bar>q\<bar>\<rceil> - 1"] have "0 < bitlen (\<lceil>1 / \<bar>q\<bar>\<rceil> - 1)" by linarith
  with False show ?thesis by (simp add: ilog2_def)
qed

lemma round_half_even_of_int [simp]: "round_half_even (of_int m) = m"
  by (simp add: round_half_even_def)

lemma round_half_even_le:
  assumes "q \<le> of_int m"
  shows "round_half_even q \<le> m"
proof (cases "q = of_int m")
  case True
  then show ?thesis by simp
next
  case False
  with assms have "q < of_int m" by simp
  then have "\<lfloor>q\<rfloor> < m" by (simp add: floor_less_iff)
  then show ?thesis by (simp add: round_half_even_def Let_def)
qed

lemma round_half_even_ge:
  assumes "of_int m \<le> q"
  shows "m \<le> round_half_even q"
proof -
  from assms have "m \<le> \<lfloor>q\<rfloor>" by (simp add: le_floor_iff)
  then show ?thesis by (simp add: round_half_even_def Let_def)
qed

lemma pow2_pos [simp]: "0 < pow2 k"
  by (simp add: pow2_def)

lemma pow2_nonzero [simp]: "pow2 k \<noteq> 0"
  by (simp add: pow2_def)

lemma pow2_nonpos: "k \<le> 0 \<Longrightarrow> pow2 k = 1 / 2 ^ nat (- k)"
  by (auto simp: pow2_def)

text \<open>The exponent of the rounding grid is at most \<open>n - 24\<close> below \<open>2\<^sup>n\<close>.\<close>

lemma grid_exponent_le:
  assumes "q \<noteq> 0" and "\<bar>q\<bar> < 2 ^ n" and "n \<le> 24"
  shows "max (ilog2 q - 23) (- 149) \<le> int n - 24"
  using ilog2_less [OF assms(1,2)] assms(3) by simp

text \<open>A multiple of \<open>2\<^sup>-\<^sup>j\<close> is a whole number of grid steps when the grid exponent is at most \<open>-j\<close>.\<close>

lemma grid_multiple:
  assumes "k \<le> - int j"
  shows "of_int c / 2 ^ j / pow2 k = (of_int (c * 2 ^ (nat (- k) - j)) :: rat)"
proof -
  have "nat (- k) = j + (nat (- k) - j)" using assms by simp
  then have "(2 :: rat) ^ nat (- k) = 2 ^ j * 2 ^ (nat (- k) - j)"
    by (metis power_add)
  then show ?thesis
    using assms by (simp add: pow2_nonpos)
qed

lemma f32_round_le:
  assumes "q \<le> of_int c" and "\<bar>q\<bar> < 2 ^ 24"
  shows "f32_round q \<le> of_int c"
proof (cases "q = 0")
  case True
  with assms show ?thesis by (simp add: f32_round_def)
next
  case False
  define k where "k = max (ilog2 q - 23) (- 149)"
  have k: "k \<le> - int 0"
    using grid_exponent_le [OF False assms(2)] by (simp add: k_def)
  have "q / pow2 k \<le> of_int c / 2 ^ 0 / pow2 k"
    using divide_right_mono [OF assms(1) less_imp_le [OF pow2_pos [of k]]] by simp
  then have "round_half_even (q / pow2 k) \<le> c * 2 ^ (nat (- k) - 0)"
    unfolding grid_multiple [OF k] by (rule round_half_even_le)
  then have "(of_int (round_half_even (q / pow2 k)) :: rat) \<le> of_int (c * 2 ^ (nat (- k) - 0))"
    by (simp only: of_int_le_iff)
  then have "of_int (round_half_even (q / pow2 k)) * pow2 k \<le> of_int (c * 2 ^ (nat (- k) - 0)) * pow2 k"
    by (simp add: mult_right_mono)
  also have "\<dots> = of_int c"
    using grid_multiple [OF k, of c, symmetric] by simp
  finally show ?thesis
    using False by (simp add: f32_round_def k_def Let_def)
qed

lemma f32_round_ge:
  assumes "of_int c \<le> q" and "\<bar>q\<bar> < 2 ^ 24"
  shows "of_int c \<le> f32_round q"
proof (cases "q = 0")
  case True
  with assms show ?thesis by (simp add: f32_round_def)
next
  case False
  define k where "k = max (ilog2 q - 23) (- 149)"
  have k: "k \<le> - int 0"
    using grid_exponent_le [OF False assms(2)] by (simp add: k_def)
  have "of_int c / 2 ^ 0 / pow2 k \<le> q / pow2 k"
    using divide_right_mono [OF assms(1) less_imp_le [OF pow2_pos [of k]]] by simp
  then have "c * 2 ^ (nat (- k) - 0) \<le> round_half_even (q / pow2 k)"
    unfolding grid_multiple [OF k] by (rule round_half_even_ge)
  then have "(of_int (c * 2 ^ (nat (- k) - 0)) :: rat) \<le> of_int (round_half_even (q / pow2 k))"
    by (simp only: of_int_le_iff)
  then have le: "of_int (c * 2 ^ (nat (- k) - 0)) * pow2 k \<le> of_int (round_half_even (q / pow2 k)) * pow2 k"
    by (simp add: mult_right_mono)
  have eq: "of_int (c * 2 ^ (nat (- k) - 0)) * pow2 k = (of_int c :: rat)"
    using grid_multiple [OF k, of c, symmetric] by simp
  from le have "of_int c \<le> of_int (round_half_even (q / pow2 k)) * pow2 k"
    unfolding eq .
  then show ?thesis
    using False by (simp add: f32_round_def k_def Let_def)
qed

lemma f32_round_of_int:
  assumes "\<bar>c\<bar> < 2 ^ 24"
  shows "f32_round (of_int c) = of_int c"
proof -
  have "\<bar>of_int c :: rat\<bar> < 2 ^ 24"
    using assms by (metis of_int_abs of_int_less_iff of_int_numeral of_int_power)
  then show ?thesis
    using f32_round_le [of "of_int c" c] f32_round_ge [of c "of_int c"] by simp
qed

text \<open>A multiple of \<open>2\<^sup>-\<^sup>j\<close> below \<open>2\<^sup>n\<close> with \<open>n + j \<le> 24\<close> is a single-precision value.\<close>

lemma f32_round_exact:
  assumes "\<bar>of_int m / 2 ^ j :: rat\<bar> < 2 ^ n" and "n + j \<le> 24"
  shows "f32_round (of_int m / 2 ^ j) = of_int m / 2 ^ j"
proof (cases "of_int m / 2 ^ j = (0 :: rat)")
  case True
  then show ?thesis by (simp add: f32_round_def)
next
  case False
  define q :: rat where "q = of_int m / 2 ^ j"
  define k where "k = max (ilog2 q - 23) (- 149)"
  have "k \<le> int n - 24"
    using grid_exponent_le [of q n] False assms by (simp add: k_def q_def)
  with assms(2) have k: "k \<le> - int j" by simp
  have "of_int (round_half_even (q / pow2 k)) * pow2 k = q"
    unfolding q_def grid_multiple [OF k] round_half_even_of_int
    using grid_multiple [OF k, of m, symmetric] by simp
  then show ?thesis
    using False by (simp add: f32_round_def k_def q_def Let_def)
qed

lemma c_stick_to_u32_in_range:
  assumes "- 1 \<le> a" and "a \<le> 1"
  shows "\<exists>q. c_stick_to_u32 a = Inr q \<and> take_bit 12 q = q
     \<and> uint q = \<lfloor>f32_add (int_to_f32 C_STICK_CENTER) (f32_mul (int_to_f32 C_STICK_RADIUS) a)\<rfloor>
     \<and> \<lfloor>2048 + 2047 * a\<rfloor> \<le> uint q \<and> uint q \<le> \<lceil>2048 + 2047 * a\<rceil>
     \<and> (a * 4096 \<in> \<int> \<longrightarrow> uint q = \<lfloor>2048 + 2047 * a\<rfloor>)"
proof -
  define p where "p = f32_round (2047 * a)"
  define s where "s = f32_round (2048 + p)"
  have centre: "int_to_f32 C_STICK_CENTER = 2048"
    using f32_round_of_int [of 2048] by (simp add: int_to_f32_def C_STICK_CENTER_def)
  have radius: "int_to_f32 C_STICK_RADIUS = 2047"
    using f32_round_of_int [of 2047] by (simp add: int_to_f32_def C_STICK_RADIUS_def)
  have sum: "f32_add (int_to_f32 C_STICK_CENTER) (f32_mul (int_to_f32 C_STICK_RADIUS) a) = s"
    by (simp add: centre radius f32_add_def f32_mul_def s_def p_def)
  have expr: "c_stick_to_u32 a = float_to_u32 s"
    by (simp add: c_stick_to_u32_def sum)
  have small: "\<bar>2047 * a\<bar> < 2 ^ 24"
    using assms by (simp add: abs_less_iff)
  have p_ge: "of_int n \<le> p" if "of_int n \<le> 2047 * a" for n
    unfolding p_def using that small by (rule f32_round_ge)
  have p_le: "p \<le> of_int n" if "2047 * a \<le> of_int n" for n
    unfolding p_def using that small by (rule f32_round_le)
  have "- 2047 \<le> p" "p \<le> 2047"
    using p_ge [of "- 2047"] p_le [of 2047] assms by simp_all
  then have small': "\<bar>2048 + p\<bar> < 2 ^ 24"
    by (simp add: abs_less_iff)
  have s_ge: "of_int n \<le> s" if "of_int n \<le> 2048 + 2047 * a" for n
  proof -
    from that have "of_int (n - 2048) \<le> 2047 * a" by simp
    then have "of_int (n - 2048) \<le> p" by (rule p_ge)
    then have "of_int n \<le> 2048 + p" by simp
    then show ?thesis unfolding s_def using small' by (rule f32_round_ge)
  qed
  have s_le: "s \<le> of_int n" if "2048 + 2047 * a \<le> of_int n" for n
  proof -
    from that have "2047 * a \<le> of_int (n - 2048)" by simp
    then have "p \<le> of_int (n - 2048)" by (rule p_le)
    then have "2048 + p \<le> of_int n" by simp
    then show ?thesis unfolding s_def using small' by (rule f32_round_le)
  qed
  have lo: "\<lfloor>2048 + 2047 * a\<rfloor> \<le> \<lfloor>s\<rfloor>"
    using s_ge [of "\<lfloor>2048 + 2047 * a\<rfloor>"] by (simp add: le_floor_iff)
  have "s \<le> of_int \<lceil>2048 + 2047 * a\<rceil>"
    by (rule s_le) (rule le_of_int_ceiling)
  then have hi: "\<lfloor>s\<rfloor> \<le> \<lceil>2048 + 2047 * a\<rceil>"
    using of_int_floor_le [of s] by (metis floor_le_iff floor_mono floor_of_int)
  have "1 \<le> s" "s \<le> 4095"
    using s_ge [of 1] s_le [of 4095] assms by simp_all
  then have range: "1 \<le> \<lfloor>s\<rfloor>" "\<lfloor>s\<rfloor> \<le> 4095"
    by (simp_all add: le_floor_iff floor_le_iff)
  define q :: u32 where "q = word_of_int \<lfloor>s\<rfloor>"
  have cast: "float_to_u32 s = Inr q"
    using range \<open>1 \<le> s\<close> by (simp add: float_to_u32_def q_def)
  have uint: "uint q = \<lfloor>s\<rfloor>"
    using range by (simp add: q_def uint_word_of_int take_bit_int_eq_self)
  have fits: "take_bit 12 q = q"
  proof (rule word_uint_eqI)
    show "uint (take_bit 12 q) = uint q"
      using range by (simp add: unsigned_take_bit_eq uint take_bit_int_eq_self)
  qed
  have grid: "\<lfloor>s\<rfloor> = \<lfloor>2048 + 2047 * a\<rfloor>" if "a * 4096 \<in> \<int>"
  proof -
    from that obtain m where m: "a * 4096 = of_int m" by (auto elim: Ints_cases)
    then have a: "a = of_int m / 2 ^ 12" by simp
    have e1: "2047 * a = of_int (2047 * m) / 2 ^ 12" by (simp add: a)
    have b1: "\<bar>of_int (2047 * m) / 2 ^ 12 :: rat\<bar> < 2 ^ 11"
      unfolding e1 [symmetric] using assms by (simp add: abs_less_iff)
    have "f32_round (of_int (2047 * m) / 2 ^ 12) = of_int (2047 * m) / 2 ^ 12"
      by (rule f32_round_exact [OF b1]) simp
    then have p: "p = 2047 * a" unfolding p_def e1 .
    have e2: "2048 + 2047 * a = of_int (2048 * 4096 + 2047 * m) / 2 ^ 12" by (simp add: a)
    have b2: "\<bar>of_int (2048 * 4096 + 2047 * m) / 2 ^ 12 :: rat\<bar> < 2 ^ 12"
      unfolding e2 [symmetric] using assms by (simp add: abs_less_iff)
    have "f32_round (of_int (2048 * 4096 + 2047 * m) / 2 ^ 12) = of_int (2048 * 4096 + 2047 * m) / 2 ^ 12"
      by (rule f32_round_exact [OF b2]) simp
    then have "s = 2048 + 2047 * a" unfolding s_def p e2 .
    then show ?thesis by simp
  qed
  show ?thesis
    using expr cast uint fits lo hi grid sum by auto
qed

subsection \<open>The broadcast tick and the event queue\<close>

lemma SendHIDStatus_returns:
  assumes "axes_in_range w"
  shows "\<exists>w'. SendHIDStatus msToCycles uninit cycles_late w = Inr w'"
proof -
  obtain x y where xy: "analog_status w (tick_c_stick w) = (x, y)"
    by (cases "analog_status w (tick_c_stick w)")
  with assms have "- 1 \<le> x" "x \<le> 1" "- 1 \<le> y" "y \<le> 1"
    by (simp_all add: axes_in_range_def)
  then obtain xq yq where "c_stick_to_u32 x = Inr xq" "c_stick_to_u32 y = Inr yq"
    using c_stick_to_u32_in_range [of x] c_stick_to_u32_in_range [of y] by blast
  with xy show ?thesis
    by (cases "is_device_reload_pending (device w)")
      (simp_all add: SendHIDStatus_def Let_def LoadInputDevices_def tick_c_stick_def)
qed

lemma UnscheduleEvent_own:
  "CoreTiming_UnscheduleEvent (send_callback (device w)) 0 w =
     w\<lparr>event_queue := other_events w,
       calls := calls w @ [UnscheduleEvent_call (send_callback (device w)) 0]\<rparr>"
proof -
  have "(\<lambda>(t, e, u). \<not> (e = h \<and> u = 0)) = (\<lambda>ev. \<not> own_tick h ev)" for h
    by (auto simp: own_tick_def fun_eq_iff)
  then show ?thesis
    by (simp add: CoreTiming_UnscheduleEvent_def other_events_def)
qed

lemma created_append [simp]: "created (cs @ ds) = created cs @ created ds"
  by (simp add: created_def)

lemma created_simps [simp]:
  "created [] = []"
  "created (CreateButtonDevice p # cs) = CreateButtonDevice p # created cs"
  "created (CreateAnalogDevice p # cs) = CreateAnalogDevice p # created cs"
  "created (Send bytes # cs) = created cs"
  "created (ScheduleEvent_call d e u # cs) = created cs"
  "created (UnscheduleEvent_call e u # cs) = created cs"
  "created (RegisterEvent n # cs) = created cs"
  by (simp_all add: created_def)

subsection \<open>The concrete states\<close>

lemma sample_world_eq:
  "sample_world =
     \<lparr>device = \<lparr>zl = ''zl'', zr = ''zr'', c_stick = ''cstick'', hid_period = 0,
                 calibration_data = factory_calibration,
                 is_device_reload_pending = False, send_callback = 0\<rparr>,
      global_timer = 1000, event_types = [''ExtraHID::SendHIDStatus''], event_queue = [],
      calls = [CreateButtonDevice ''zl'', CreateButtonDevice ''zr'', CreateAnalogDevice ''cstick'',
               RegisterEvent ''ExtraHID::SendHIDStatus''],
      buttons_ZL = ''zl'', buttons_ZR = ''zr'', analogs_CStick = ''cstick'',
      button_status = (\<lambda>p. p = ''zl''),
      analog_status = (\<lambda>p. if p = ''cstick'' then (1 / 4, - 1) else (0, 0))\<rparr>"
  by (simp add: sample_world_def blank_host_def ExtraHID_ctor_def CoreTiming_RegisterEvent_def
      LoadInputDevices_def Let_def)

lemma armed_world_eq:
  "armed_world = sample_world
     \<lparr>device := (device sample_world)\<lparr>hid_period := 5\<rparr>,
      event_queue := [(1341615, 0, 0)],
      calls := calls sample_world @ [UnscheduleEvent_call 0 0, ScheduleEvent_call 1340615 0 0]\<rparr>"
  by (simp add: armed_world_def sample_world_eq Receive_def vector_at_def RequestID_ReadHIDStatus_def
      HandleReadHIDStatusRequest_def CoreTiming_UnscheduleEvent_def CoreTiming_ScheduleEvent_def
      sample_msToCycles_def Let_def)

lemma remapped_world_eq:
  "remapped_world = sample_world
     \<lparr>device := (device sample_world)\<lparr>is_device_reload_pending := True\<rparr>,
      buttons_ZL := ''l2'', analogs_CStick := ''pad''\<rparr>"
  by (simp add: remapped_world_def ReloadInputDevices_def)

lemma sample_world_axes: "axes_in_range sample_world"
  by (simp add: axes_in_range_def sample_world_eq tick_c_stick_def)

lemma late_world_axes: "axes_in_range late_world"
  by (simp add: axes_in_range_def late_world_def armed_world_eq sample_world_eq tick_c_stick_def)

lemma world_with_axes_range: "- 1 \<le> x \<Longrightarrow> x \<le> 1 \<Longrightarrow> - 1 \<le> y \<Longrightarrow> y \<le> 1 \<Longrightarrow> axes_in_range (world_with_axes x y)"
  by (simp add: axes_in_range_def world_with_axes_def)

lemma sample_tick_packet:
  "\<not> isl (SendHIDStatus sample_msToCycles (0xDEADBEEF, 0x55) 7 sample_world)
   \<and> sent (calls (projr (SendHIDStatus sample_msToCycles (0xDEADBEEF, 0x55) 7 sample_world)))
       = [[0x10, 0xFF, 0x19, 0x00, 0xDF, 0x00]]"
  by code_simp

lemma field_decode:
  "take_bit 12 (drop_bit 8 (u32_of_bytes [0x10, 0xFF, 0x19, 0x00, 0xDF, 0x00])) = 2559
   \<and> drop_bit 20 (u32_of_bytes [0x10, 0xFF, 0x19, 0x00, 0xDF, 0x00]) = 1"
  by (simp add: u32_of_bytes_def)

lemma round_quarter: "round (0x800 + 0x7FF * (1 / 4) :: rat) = 2560"
  by code_simp

lemma floor_quarter: "\<lfloor>0x800 + 0x7FF * (1 / 4) :: rat\<rfloor> = 2559"
  by code_simp

section \<open>The claims\<close>

text \<open>
  C1. A calibration-read request of exactly 6 bytes with raw little-endian offset \<open>o\<close> and
  size \<open>s\<close> is served with both rounded down to a multiple of 16. If the rounded offset
  plus the rounded size exceeds 64, nothing is sent and the state is unchanged. Otherwise
  exactly one packet is sent: the byte \<open>0x11\<close>, the four raw offset and size bytes of the
  request as they came, and the blob bytes from the rounded offset up to the rounded offset
  plus the rounded size. \<open>Receive\<close> routes every 6-byte request whose first byte is 2 here.
\<close>

theorem calibration_read_window:
  assumes "length data = 6" and "length (calibration_data (device w)) = 64"
  shows "HandleReadCalibrationDataRequest data w =
     (if 64 < floor16 (request_offset data) + floor16 (request_size data) then Inr w
      else Inr (w\<lparr>calls := calls w @
             [Send ([0x11, data ! 2, data ! 3, data ! 4, data ! 5] @
                subsequence (calibration_data (device w)) (floor16 (request_offset data))
                  (floor16 (request_offset data) + floor16 (request_size data)))]\<rparr>))
     \<and> (data ! 0 = 2 \<longrightarrow> Receive msToCycles data w = HandleReadCalibrationDataRequest data w)"
proof -
  obtain a b c d e f where data: "data = [a, b, c, d, e, f]"
    using length_6_list [OF assms(1)] by blast
  have "Receive msToCycles data w = HandleReadCalibrationDataRequest data w" if "data ! 0 = 2"
    using that unfolding data
    by (simp add: Receive_def vector_at_def RequestID_ReadHIDStatus_def RequestID_ReadCalibrationData_def)
  moreover have "HandleReadCalibrationDataRequest data w =
     (if 64 < floor16 (request_offset data) + floor16 (request_size data) then Inr w
      else Inr (w\<lparr>calls := calls w @
             [Send ([0x11, data ! 2, data ! 3, data ! 4, data ! 5] @
                subsequence (calibration_data (device w)) (floor16 (request_offset data))
                  (floor16 (request_offset data) + floor16 (request_size data)))]\<rparr>))"
    unfolding data HandleReadCalibrationDataRequest_6 [OF assms(2)]
    by (simp add: request_offset_def request_size_def Let_def numeral_eq_Suc)
  ultimately show ?thesis by blast
qed

theorem calibration_read_window_witness:
  "length [2, 0, 0x10, 0, 0x10, 0 :: u8] = 6 \<and> length (calibration_data (device sample_world)) = 64
   \<and> [2, 0, 0x10, 0, 0x10, 0 :: u8] ! 0 = 2
   \<and> Receive sample_msToCycles [2, 0, 0x10, 0, 0x10, 0] sample_world =
       Inr (sample_world\<lparr>calls := calls sample_world @
              [Send [0x11, 0x10, 0, 0x10, 0,
                     0xFF, 0x00, 0x08, 0x80, 0x85, 0xEB, 0x11, 0x3F,
                     0x85, 0xEB, 0x11, 0x3F, 0xFF, 0xFF, 0xFF, 0x65]]\<rparr>)"
proof -
  have len: "length (calibration_data (device sample_world)) = 64"
    by (simp add: sample_world_blob factory_calibration_def)
  have six: "length [2, 0, 0x10, 0, 0x10, 0 :: u8] = 6" by simp
  show ?thesis
    using calibration_read_window [OF six len, of sample_msToCycles] len
    by (simp add: request_offset_def request_size_def floor16_def subsequence_def
        sample_world_blob factory_calibration_def)
qed

text \<open>
  C2, as the code has it. The source converts with \<open>static_cast<u32>\<close>, which discards the
  fraction instead of rounding to nearest. For axes in \<open>[-1, 1]\<close> the tick returns, and
  each 12-bit field is the floor of the single-precision value of \<open>0x800 + 0x7FF * a\<close>. It
  lies between the floor and the ceiling of the exact value, so nothing is lost in the 12
  bits; and wherever \<open>a\<close> is a multiple of \<open>2\<^sup>-\<^sup>1\<^sup>2\<close>, where single-precision arithmetic
  is exact, it is the floor of the exact value. Hence \<open>(0, 0)\<close> gives \<open>0x800\<close> and
  \<open>0x800\<close>, and \<open>(1, -1)\<close> gives \<open>0x800 + 0x7FF\<close> and \<open>0x800 - 0x7FF\<close>.
\<close>

theorem analog_quantization_truncates:
  assumes "axes_in_range w"
  shows "\<exists>w' pkt. SendHIDStatus msToCycles uninit cycles_late w = Inr w'
     \<and> sent (calls w') = sent (calls w) @ [pkt]
     \<and> uint (take_bit 12 (drop_bit 8 (u32_of_bytes pkt)))
           = \<lfloor>f32_add (int_to_f32 C_STICK_CENTER)
                (f32_mul (int_to_f32 C_STICK_RADIUS) (fst (analog_status w (tick_c_stick w))))\<rfloor>
     \<and> uint (drop_bit 20 (u32_of_bytes pkt))
           = \<lfloor>f32_add (int_to_f32 C_STICK_CENTER)
                (f32_mul (int_to_f32 C_STICK_RADIUS) (snd (analog_status w (tick_c_stick w))))\<rfloor>
     \<and> \<lfloor>0x800 + 0x7FF * fst (analog_status w (tick_c_stick w))\<rfloor>
           \<le> uint (take_bit 12 (drop_bit 8 (u32_of_bytes pkt)))
     \<and> uint (take_bit 12 (drop_bit 8 (u32_of_bytes pkt)))
           \<le> \<lceil>0x800 + 0x7FF * fst (analog_status w (tick_c_stick w))\<rceil>
     \<and> (fst (analog_status w (tick_c_stick w)) * 4096 \<in> \<int> \<longrightarrow>
           uint (take_bit 12 (drop_bit 8 (u32_of_bytes pkt)))
             = \<lfloor>0x800 + 0x7FF * fst (analog_status w (tick_c_stick w))\<rfloor>)
     \<and> \<lfloor>0x800 + 0x7FF * snd (analog_status w (tick_c_stick w))\<rfloor>
           \<le> uint (drop_bit 20 (u32_of_bytes pkt))
     \<and> uint (drop_bit 20 (u32_of_bytes pkt))
           \<le> \<lceil>0x800 + 0x7FF * snd (analog_status w (tick_c_stick w))\<rceil>
     \<and> (snd (analog_status w (tick_c_stick w)) * 4096 \<in> \<int> \<longrightarrow>
           uint (drop_bit 20 (u32_of_bytes pkt))
             = \<lfloor>0x800 + 0x7FF * snd (analog_status w (tick_c_stick w))\<rfloor>)"
proof -
  let ?x = "fst (analog_status w (tick_c_stick w))"
  let ?y = "snd (analog_status w (tick_c_stick w))"
  from assms have r: "- 1 \<le> ?x" "?x \<le> 1" "- 1 \<le> ?y" "?y \<le> 1"
    by (simp_all add: axes_in_range_def)
  from SendHIDStatus_returns [OF assms]
  obtain w' where w': "SendHIDStatus msToCycles uninit cycles_late w = Inr w'" by blast
  from SendHIDStatus_Inr [OF w'] obtain xq yq pkt where
    q: "c_stick_to_u32 ?x = Inr xq" "c_stick_to_u32 ?y = Inr yq"
    and f: "take_bit 12 (drop_bit 8 (u32_of_bytes pkt)) = take_bit 12 xq"
      "drop_bit 20 (u32_of_bytes pkt) = take_bit 12 yq"
    and c: "w' = w\<lparr>device := (device w)\<lparr>zl := tick_zl w, zr := tick_zr w, c_stick := tick_c_stick w,
                   is_device_reload_pending := False\<rparr>,
              event_queue := event_queue w @
                [(global_timer w + (msToCycles (uint (hid_period (device w))) - cycles_late),
                  send_callback (device w), 0)],
              calls := calls w @
                (if is_device_reload_pending (device w)
                 then [CreateButtonDevice (buttons_ZL w), CreateButtonDevice (buttons_ZR w),
                       CreateAnalogDevice (analogs_CStick w)]
                 else []) @
                [Send pkt,
                 ScheduleEvent_call (msToCycles (uint (hid_period (device w))) - cycles_late)
                   (send_callback (device w)) 0]\<rparr>"
    by blast
  have s: "sent (calls w') = sent (calls w) @ [pkt]"
    by (simp add: c)
  from c_stick_to_u32_in_range [OF r(1,2)] q(1)
  have X: "take_bit 12 xq = xq" "\<lfloor>2048 + 2047 * ?x\<rfloor> \<le> uint xq" "uint xq \<le> \<lceil>2048 + 2047 * ?x\<rceil>"
    "?x * 4096 \<in> \<int> \<longrightarrow> uint xq = \<lfloor>2048 + 2047 * ?x\<rfloor>"
    "uint xq = \<lfloor>f32_add (int_to_f32 C_STICK_CENTER) (f32_mul (int_to_f32 C_STICK_RADIUS) ?x)\<rfloor>"
    by auto
  from c_stick_to_u32_in_range [OF r(3,4)] q(2)
  have Y: "take_bit 12 yq = yq" "\<lfloor>2048 + 2047 * ?y\<rfloor> \<le> uint yq" "uint yq \<le> \<lceil>2048 + 2047 * ?y\<rceil>"
    "?y * 4096 \<in> \<int> \<longrightarrow> uint yq = \<lfloor>2048 + 2047 * ?y\<rfloor>"
    "uint yq = \<lfloor>f32_add (int_to_f32 C_STICK_CENTER) (f32_mul (int_to_f32 C_STICK_RADIUS) ?y)\<rfloor>"
    by auto
  show ?thesis
    using w' s X Y by (intro exI [of _ w'] exI [of _ pkt]) (simp add: f)
qed

theorem analog_quantization_truncates_witness:
  "axes_in_range (world_with_axes 0 0) \<and> (0 :: rat) * 4096 \<in> \<int>
   \<and> (\<exists>w' pkt. SendHIDStatus sample_msToCycles (0, 0) 0 (world_with_axes 0 0) = Inr w'
          \<and> sent (calls w') = [pkt]
          \<and> uint (take_bit 12 (drop_bit 8 (u32_of_bytes pkt))) = 0x800
          \<and> uint (drop_bit 20 (u32_of_bytes pkt)) = 0x800)
   \<and> axes_in_range (world_with_axes 1 (- 1)) \<and> (1 :: rat) * 4096 \<in> \<int> \<and> (- 1 :: rat) * 4096 \<in> \<int>
   \<and> (\<exists>w' pkt. SendHIDStatus sample_msToCycles (0, 0) 0 (world_with_axes 1 (- 1)) = Inr w'
          \<and> sent (calls w') = [pkt]
          \<and> uint (take_bit 12 (drop_bit 8 (u32_of_bytes pkt))) = 0x800 + 0x7FF
          \<and> uint (drop_bit 20 (u32_of_bytes pkt)) = 0x800 - 0x7FF)
   \<and> axes_in_range (world_with_axes (1 / 4) 0) \<and> (1 / 4 :: rat) * 4096 \<in> \<int>
   \<and> (\<exists>w' pkt. SendHIDStatus sample_msToCycles (0, 0) 0 (world_with_axes (1 / 4) 0) = Inr w'
          \<and> sent (calls w') = [pkt]
          \<and> uint (take_bit 12 (drop_bit 8 (u32_of_bytes pkt))) = 2559)"
proof -
  have a: "axes_in_range (world_with_axes 0 0)" "axes_in_range (world_with_axes 1 (- 1))"
    "axes_in_range (world_with_axes (1 / 4) 0)"
    by (simp_all add: world_with_axes_range)
  have i: "(0 :: rat) * 4096 \<in> \<int>" "(1 :: rat) * 4096 \<in> \<int>" "(- 1 :: rat) * 4096 \<in> \<int>"
    "(1 / 4 :: rat) * 4096 \<in> \<int>"
    by simp_all
  have e: "sent (calls (world_with_axes x y)) = []"
    "analog_status (world_with_axes x y) (tick_c_stick (world_with_axes x y)) = (x, y)" for x y
    by (simp_all add: world_with_axes_def sample_world_eq)
  have 1: "\<exists>w' pkt. SendHIDStatus sample_msToCycles (0, 0) 0 (world_with_axes 0 0) = Inr w'
          \<and> sent (calls w') = [pkt]
          \<and> uint (take_bit 12 (drop_bit 8 (u32_of_bytes pkt))) = 0x800
          \<and> uint (drop_bit 20 (u32_of_bytes pkt)) = 0x800"
    using analog_quantization_truncates [OF a(1), of sample_msToCycles "(0, 0)" 0] i
    by (simp add: e, blast)
  have 2: "\<exists>w' pkt. SendHIDStatus sample_msToCycles (0, 0) 0 (world_with_axes 1 (- 1)) = Inr w'
          \<and> sent (calls w') = [pkt]
          \<and> uint (take_bit 12 (drop_bit 8 (u32_of_bytes pkt))) = 0x800 + 0x7FF
          \<and> uint (drop_bit 20 (u32_of_bytes pkt)) = 0x800 - 0x7FF"
    using analog_quantization_truncates [OF a(2), of sample_msToCycles "(0, 0)" 0] i
    by (simp add: e, blast)
  have 3: "\<exists>w' pkt. SendHIDStatus sample_msToCycles (0, 0) 0 (world_with_axes (1 / 4) 0) = Inr w'
          \<and> sent (calls w') = [pkt]
          \<and> uint (take_bit 12 (drop_bit 8 (u32_of_bytes pkt))) = 2559"
    using analog_quantization_truncates [OF a(3), of sample_msToCycles "(0, 0)" 0] i floor_quarter
    by (simp add: e, blast)
  from a i 1 2 3 show ?thesis by blast
qed

text \<open>
  The claim as stated fails at the axis value \<open>1/4\<close>: the exact position is \<open>2559.75\<close>,
  rounding gives \<open>2560\<close>, and the packet carries \<open>2559\<close>.
\<close>

theorem analog_quantization_counterexample:
  "fst (analog_status sample_world (tick_c_stick sample_world)) = 1 / 4
   \<and> \<not> isl (SendHIDStatus sample_msToCycles (0xDEADBEEF, 0x55) 7 sample_world)
   \<and> sent (calls (projr (SendHIDStatus sample_msToCycles (0xDEADBEEF, 0x55) 7 sample_world)))
       = [[0x10, 0xFF, 0x19, 0x00, 0xDF, 0x00]]
   \<and> take_bit 12 (drop_bit 8 (u32_of_bytes [0x10, 0xFF, 0x19, 0x00, 0xDF, 0x00])) = 2559
   \<and> take_bit 12 (word_of_int (round (0x800 + 0x7FF * (1 / 4) :: rat)) :: u32) = 2560"
proof -
  have "fst (analog_status sample_world (tick_c_stick sample_world)) = 1 / 4"
    by (simp add: sample_world_eq tick_c_stick_def)
  moreover have "take_bit 12 (word_of_int (round (0x800 + 0x7FF * (1 / 4) :: rat)) :: u32) = 2560"
    unfolding round_quarter by simp
  ultimately show ?thesis
    using sample_tick_packet field_decode by simp
qed

text \<open>
  C3. A tick reported \<open>cycles_late\<close> late schedules the next one with the delay
  \<open>msToCycles(hid_period) - cycles_late\<close>. When the lateness is the time elapsed since
  the tick's deadline, the next deadline is the old deadline plus the period: lateness
  does not accumulate. The subtraction is done in the 64-bit type of \<open>msToCycles\<close>, where
  a 32-bit lateness cannot make it overflow; it is modelled on the integers. The tick
  returns whenever the sampled axes are in \<open>[-1, 1]\<close>.
\<close>

theorem tick_delay_drift_corrected:
  "(axes_in_range w \<longrightarrow> (\<exists>w'. SendHIDStatus msToCycles uninit cycles_late w = Inr w'))
   \<and> (\<forall>w'. SendHIDStatus msToCycles uninit cycles_late w = Inr w' \<longrightarrow>
         last (calls w') =
           ScheduleEvent_call (msToCycles (uint (hid_period (device w))) - cycles_late)
             (send_callback (device w)) 0
         \<and> event_queue w' = event_queue w @
             [(global_timer w + (msToCycles (uint (hid_period (device w))) - cycles_late),
               send_callback (device w), 0)]
         \<and> (\<forall>deadline. cycles_late = global_timer w - deadline \<longrightarrow>
               fst (last (event_queue w')) = deadline + msToCycles (uint (hid_period (device w)))))"
proof (intro conjI impI allI)
  show "\<exists>w'. SendHIDStatus msToCycles uninit cycles_late w = Inr w'" if "axes_in_range w"
    using that by (rule SendHIDStatus_returns)
next
  fix w'
  assume "SendHIDStatus msToCycles uninit cycles_late w = Inr w'"
  from SendHIDStatus_Inr [OF this] obtain pkt cs where
    w': "event_queue w' = event_queue w @
             [(global_timer w + (msToCycles (uint (hid_period (device w))) - cycles_late),
               send_callback (device w), 0)]"
      "calls w' = calls w @ cs @ [Send pkt,
                 ScheduleEvent_call (msToCycles (uint (hid_period (device w))) - cycles_late)
                   (send_callback (device w)) 0]"
    by auto
  show "last (calls w') =
           ScheduleEvent_call (msToCycles (uint (hid_period (device w))) - cycles_late)
             (send_callback (device w)) 0"
    by (simp add: w')
  show "event_queue w' = event_queue w @
             [(global_timer w + (msToCycles (uint (hid_period (device w))) - cycles_late),
               send_callback (device w), 0)]"
    by (rule w')
  show "fst (last (event_queue w')) = deadline + msToCycles (uint (hid_period (device w)))"
    if "cycles_late = global_timer w - deadline" for deadline
    using that by (simp add: w')
qed

theorem tick_delay_drift_corrected_witness:
  "axes_in_range late_world
   \<and> global_timer late_world - 1341615 = 7
   \<and> (\<exists>w'. SendHIDStatus sample_msToCycles (0xDEADBEEF, 0x55) 7 late_world = Inr w'
          \<and> last (calls w') = ScheduleEvent_call (1340615 - 7) 0 0
          \<and> event_queue w' = [(1341615 + 1340615, 0, 0)])"
proof -
  have t: "global_timer late_world - 1341615 = 7"
    by (simp add: late_world_def)
  from tick_delay_drift_corrected [of late_world sample_msToCycles "(0xDEADBEEF, 0x55)" 7] late_world_axes
  obtain w' where w': "SendHIDStatus sample_msToCycles (0xDEADBEEF, 0x55) 7 late_world = Inr w'"
    by blast
  with tick_delay_drift_corrected [of late_world sample_msToCycles "(0xDEADBEEF, 0x55)" 7]
  have "last (calls w') =
           ScheduleEvent_call (sample_msToCycles (uint (hid_period (device late_world))) - 7)
             (send_callback (device late_world)) 0"
    and "event_queue w' = event_queue late_world @
             [(global_timer late_world + (sample_msToCycles (uint (hid_period (device late_world))) - 7),
               send_callback (device late_world), 0)]"
    by blast+
  then have "last (calls w') = ScheduleEvent_call (1340615 - 7) 0 0"
    and "event_queue w' = [(1341615 + 1340615, 0, 0)]"
    by (simp_all add: late_world_def armed_world_eq sample_world_eq sample_msToCycles_def)
  with w' t late_world_axes show ?thesis by blast
qed

text \<open>
  C4. A status-configuration request of exactly 3 bytes with period byte \<open>p\<close> makes the
  handler cancel the device's callback once, store \<open>p\<close> as the period and then schedule
  the callback \<open>msToCycles(p)\<close> ticks (\<open>p\<close> milliseconds in scheduler ticks) after the
  current time. Afterwards the queue holds exactly one callback of the device, due at the
  current time plus that delay, whatever was pending before; the events of others are
  kept. \<open>Receive\<close> routes every 3-byte request whose first byte is 1 here.
\<close>

theorem status_configuration_rearms:
  assumes "length data = 3"
  shows "\<exists>w'. HandleReadHIDStatusRequest msToCycles data w = Inr w'
     \<and> (data ! 0 = 1 \<longrightarrow> Receive msToCycles data w = Inr w')
     \<and> calls w' = calls w @
           [UnscheduleEvent_call (send_callback (device w)) 0,
            ScheduleEvent_call (msToCycles (uint (data ! 1))) (send_callback (device w)) 0]
     \<and> device w' = (device w)\<lparr>hid_period := data ! 1\<rparr>
     \<and> event_queue w' = other_events w @
           [(global_timer w + msToCycles (uint (data ! 1)), send_callback (device w), 0)]
     \<and> pending_ticks w' = [(global_timer w + msToCycles (uint (data ! 1)), send_callback (device w), 0)]
     \<and> global_timer w' = global_timer w"
proof -
  obtain a p c where data: "data = [a, p, c]"
    using length_3_list [OF assms] by blast
  have own: "own_tick h (t, h, 0)" for h t
    by (simp add: own_tick_def)
  show ?thesis
    unfolding data
    by (simp add: HandleReadHIDStatusRequest_def Receive_def vector_at_def Let_def
        RequestID_ReadHIDStatus_def UnscheduleEvent_own CoreTiming_ScheduleEvent_def
        pending_ticks_def other_events_def own)
qed

theorem status_configuration_rearms_witness:
  "length [1, 9, 0 :: u8] = 3 \<and> [1, 9, 0 :: u8] ! 0 = 1
   \<and> pending_ticks armed_world = [(1341615, 0, 0)]
   \<and> (\<exists>w'. Receive sample_msToCycles [1, 9, 0] armed_world = Inr w'
          \<and> calls w' = calls armed_world @ [UnscheduleEvent_call 0 0, ScheduleEvent_call 2413107 0 0]
          \<and> hid_period (device w') = 9
          \<and> event_queue w' = [(1000 + 2413107, 0, 0)])"
proof -
  have three: "length [1, 9, 0 :: u8] = 3" by simp
  have pend: "pending_ticks armed_world = [(1341615, 0, 0)]"
    by (simp add: pending_ticks_def own_tick_def armed_world_eq sample_world_eq)
  from status_configuration_rearms [OF three, of sample_msToCycles armed_world]
  obtain w' where "Receive sample_msToCycles [1, 9, 0] armed_world = Inr w'"
    and "calls w' = calls armed_world @
           [UnscheduleEvent_call (send_callback (device armed_world)) 0,
            ScheduleEvent_call (sample_msToCycles (uint ([1, 9, 0 :: u8] ! 1))) (send_callback (device armed_world)) 0]"
    and "device w' = (device armed_world)\<lparr>hid_period := [1, 9, 0] ! 1\<rparr>"
    and "event_queue w' = other_events armed_world @
           [(global_timer armed_world + sample_msToCycles (uint ([1, 9, 0 :: u8] ! 1)), send_callback (device armed_world), 0)]"
    by auto
  then have "Receive sample_msToCycles [1, 9, 0] armed_world = Inr w'
          \<and> calls w' = calls armed_world @ [UnscheduleEvent_call 0 0, ScheduleEvent_call 2413107 0 0]
          \<and> hid_period (device w') = 9
          \<and> event_queue w' = [(1000 + 2413107, 0, 0)]"
    by (simp add: armed_world_eq sample_world_eq sample_msToCycles_def other_events_def own_tick_def)
  with three pend show ?thesis by auto
qed

text \<open>
  C5. Every packet a tick emits has 6 bytes. Its first four bytes, read as a little-endian
  word, hold the opcode \<open>0x10\<close> in bits 0 to 7, the low 12 bits of the converted X axis in
  bits 8 to 19 and the low 12 bits of the converted Y axis in bits 20 to 31. The fifth byte
  has its low five bits set, bit 5 set exactly when ZL is not pressed, bit 6 set exactly
  when ZR is not pressed, and bit 7 set. The sixth byte is 0. Nothing of the
  uninitialised local record reaches the packet. The bytes are those \<open>memcpy\<close> reads on a
  little-endian host.
\<close>

theorem status_response_layout:
  "(axes_in_range w \<longrightarrow> (\<exists>w'. SendHIDStatus msToCycles uninit cycles_late w = Inr w'))
   \<and> (\<forall>w'. SendHIDStatus msToCycles uninit cycles_late w = Inr w' \<longrightarrow>
         (\<exists>pkt xq yq.
            sent (calls w') = sent (calls w) @ [pkt]
            \<and> length pkt = 6
            \<and> c_stick_to_u32 (fst (analog_status w (tick_c_stick w))) = Inr xq
            \<and> c_stick_to_u32 (snd (analog_status w (tick_c_stick w))) = Inr yq
            \<and> take_bit 8 (u32_of_bytes pkt) = 0x10
            \<and> take_bit 12 (drop_bit 8 (u32_of_bytes pkt)) = take_bit 12 xq
            \<and> drop_bit 20 (u32_of_bytes pkt) = take_bit 12 yq
            \<and> take_bit 5 (pkt ! 4) = 0x1F
            \<and> bit (pkt ! 4) 5 = (\<not> button_status w (tick_zl w))
            \<and> bit (pkt ! 4) 6 = (\<not> button_status w (tick_zr w))
            \<and> bit (pkt ! 4) 7
            \<and> pkt ! 5 = 0))"
proof (intro conjI impI allI)
  show "\<exists>w'. SendHIDStatus msToCycles uninit cycles_late w = Inr w'" if "axes_in_range w"
    using that by (rule SendHIDStatus_returns)
next
  fix w'
  assume "SendHIDStatus msToCycles uninit cycles_late w = Inr w'"
  from SendHIDStatus_Inr [OF this] obtain xq yq pkt where
    p: "c_stick_to_u32 (fst (analog_status w (tick_c_stick w))) = Inr xq"
      "c_stick_to_u32 (snd (analog_status w (tick_c_stick w))) = Inr yq"
      "length pkt = 6"
      "take_bit 8 (u32_of_bytes pkt) = 0x10"
      "take_bit 12 (drop_bit 8 (u32_of_bytes pkt)) = take_bit 12 xq"
      "drop_bit 20 (u32_of_bytes pkt) = take_bit 12 yq"
      "take_bit 5 (pkt ! 4) = 0x1F"
      "bit (pkt ! 4) 5 = (\<not> button_status w (tick_zl w))"
      "bit (pkt ! 4) 6 = (\<not> button_status w (tick_zr w))"
      "bit (pkt ! 4) 7"
      "pkt ! 5 = 0"
    and w': "w' = w\<lparr>device := (device w)\<lparr>zl := tick_zl w, zr := tick_zr w, c_stick := tick_c_stick w,
                   is_device_reload_pending := False\<rparr>,
              event_queue := event_queue w @
                [(global_timer w + (msToCycles (uint (hid_period (device w))) - cycles_late),
                  send_callback (device w), 0)],
              calls := calls w @
                (if is_device_reload_pending (device w)
                 then [CreateButtonDevice (buttons_ZL w), CreateButtonDevice (buttons_ZR w),
                       CreateAnalogDevice (analogs_CStick w)]
                 else []) @
                [Send pkt,
                 ScheduleEvent_call (msToCycles (uint (hid_period (device w))) - cycles_late)
                   (send_callback (device w)) 0]\<rparr>"
    by blast
  have "sent (calls w') = sent (calls w) @ [pkt]"
    by (simp add: w')
  with p show "\<exists>pkt xq yq.
            sent (calls w') = sent (calls w) @ [pkt]
            \<and> length pkt = 6
            \<and> c_stick_to_u32 (fst (analog_status w (tick_c_stick w))) = Inr xq
            \<and> c_stick_to_u32 (snd (analog_status w (tick_c_stick w))) = Inr yq
            \<and> take_bit 8 (u32_of_bytes pkt) = 0x10
            \<and> take_bit 12 (drop_bit 8 (u32_of_bytes pkt)) = take_bit 12 xq
            \<and> drop_bit 20 (u32_of_bytes pkt) = take_bit 12 yq
            \<and> take_bit 5 (pkt ! 4) = 0x1F
            \<and> bit (pkt ! 4) 5 = (\<not> button_status w (tick_zl w))
            \<and> bit (pkt ! 4) 6 = (\<not> button_status w (tick_zr w))
            \<and> bit (pkt ! 4) 7
            \<and> pkt ! 5 = 0"
    by blast
qed

theorem status_response_layout_witness:
  "axes_in_range sample_world
   \<and> button_status sample_world (tick_zl sample_world)
   \<and> \<not> button_status sample_world (tick_zr sample_world)
   \<and> (\<exists>w'. SendHIDStatus sample_msToCycles (0xDEADBEEF, 0x55) 7 sample_world = Inr w'
          \<and> sent (calls w') = [[0x10, 0xFF, 0x19, 0x00, 0xDF, 0x00]]
          \<and> (\<exists>pkt. sent (calls w') = sent (calls sample_world) @ [pkt] \<and> length pkt = 6
                 \<and> take_bit 8 (u32_of_bytes pkt) = 0x10 \<and> take_bit 5 (pkt ! 4) = 0x1F
                 \<and> \<not> bit (pkt ! 4) 5 \<and> bit (pkt ! 4) 6 \<and> bit (pkt ! 4) 7 \<and> pkt ! 5 = 0))"
proof -
  have zl: "button_status sample_world (tick_zl sample_world)"
    and zr: "\<not> button_status sample_world (tick_zr sample_world)"
    by (simp_all add: sample_world_eq tick_zl_def tick_zr_def)
  from status_response_layout [of sample_world sample_msToCycles "(0xDEADBEEF, 0x55)" 7] sample_world_axes
  obtain w' where w': "SendHIDStatus sample_msToCycles (0xDEADBEEF, 0x55) 7 sample_world = Inr w'"
    by blast
  with status_response_layout [of sample_world sample_msToCycles "(0xDEADBEEF, 0x55)" 7]
  obtain pkt where "sent (calls w') = sent (calls sample_world) @ [pkt]" "length pkt = 6"
      "take_bit 8 (u32_of_bytes pkt) = 0x10" "take_bit 5 (pkt ! 4) = 0x1F"
      "bit (pkt ! 4) 5 = (\<not> button_status sample_world (tick_zl sample_world))"
      "bit (pkt ! 4) 6 = (\<not> button_status sample_world (tick_zr sample_world))"
      "bit (pkt ! 4) 7" "pkt ! 5 = 0"
    by blast
  with zl zr have "\<exists>pkt. sent (calls w') = sent (calls sample_world) @ [pkt] \<and> length pkt = 6
                 \<and> take_bit 8 (u32_of_bytes pkt) = 0x10 \<and> take_bit 5 (pkt ! 4) = 0x1F
                 \<and> \<not> bit (pkt ! 4) 5 \<and> bit (pkt ! 4) 6 \<and> bit (pkt ! 4) 7 \<and> pkt ! 5 = 0"
    by blast
  moreover have "sent (calls w') = [[0x10, 0xFF, 0x19, 0x00, 0xDF, 0x00]]"
    using sample_tick_packet w' by simp
  ultimately show ?thesis
    using zl zr w' sample_world_axes by blast
qed

text \<open>
  C6. A non-empty request that is malformed (first byte 1 and length other than 3, or first
  byte 2 and length other than 6) or whose first byte is neither 1 nor 2 is dropped:
  \<open>Receive\<close> returns the state it was given, so no packet is sent, and the broadcast
  period, the pending callbacks and the calibration blob are what they were.
\<close>

theorem Receive_drops_malformed:
  assumes "data \<noteq> []"
    and "(data ! 0 = 1 \<and> length data \<noteq> 3) \<or> (data ! 0 = 2 \<and> length data \<noteq> 6)
         \<or> (data ! 0 \<noteq> 1 \<and> data ! 0 \<noteq> 2)"
  shows "Receive msToCycles data w = Inr w"
  using assms
  by (auto simp: Receive_def vector_at_def HandleReadHIDStatusRequest_def
      HandleReadCalibrationDataRequest_def RequestID_ReadHIDStatus_def RequestID_ReadCalibrationData_def)

theorem Receive_drops_malformed_witness:
  "[1, 5 :: u8] \<noteq> [] \<and> [1, 5 :: u8] ! 0 = 1 \<and> length [1, 5 :: u8] \<noteq> 3
   \<and> Receive sample_msToCycles [1, 5] sample_world = Inr sample_world"
  using Receive_drops_malformed [of "[1, 5]" sample_msToCycles sample_world] by simp

text \<open>
  C7. \<open>ReloadInputDevices\<close> only sets the flag. A tick always leaves the flag clear. If
  the flag was set, the tick first creates the three input devices from the current
  mapping, and the packet it then sends is sampled through the new handles; if it was not
  set, the handles stay and no device is created. A tick that follows a tick therefore
  creates nothing and keeps the handles.
\<close>

theorem reload_flag_consumed_once:
  "is_device_reload_pending (device (ReloadInputDevices w))
   \<and> ReloadInputDevices w = w\<lparr>device := (device w)\<lparr>is_device_reload_pending := True\<rparr>\<rparr>
   \<and> (axes_in_range w \<longrightarrow> (\<exists>w'. SendHIDStatus msToCycles uninit cycles_late w = Inr w'))
   \<and> (\<forall>w'. SendHIDStatus msToCycles uninit cycles_late w = Inr w' \<longrightarrow>
         \<not> is_device_reload_pending (device w')
         \<and> (if is_device_reload_pending (device w)
              then zl (device w') = buttons_ZL w \<and> zr (device w') = buttons_ZR w
                \<and> c_stick (device w') = analogs_CStick w
                \<and> (\<exists>pkt sch xq.
                      calls w' = calls w @
                        [CreateButtonDevice (buttons_ZL w), CreateButtonDevice (buttons_ZR w),
                         CreateAnalogDevice (analogs_CStick w), Send pkt, sch]
                      \<and> bit (pkt ! 4) 5 = (\<not> button_status w (buttons_ZL w))
                      \<and> bit (pkt ! 4) 6 = (\<not> button_status w (buttons_ZR w))
                      \<and> c_stick_to_u32 (fst (analog_status w (analogs_CStick w))) = Inr xq
                      \<and> take_bit 12 (drop_bit 8 (u32_of_bytes pkt)) = take_bit 12 xq)
              else zl (device w') = zl (device w) \<and> zr (device w') = zr (device w)
                \<and> c_stick (device w') = c_stick (device w)
                \<and> created (calls w') = created (calls w))
         \<and> (\<forall>uninit2 late2 w''. SendHIDStatus msToCycles uninit2 late2 w' = Inr w'' \<longrightarrow>
               \<not> is_device_reload_pending (device w'')
               \<and> created (calls w'') = created (calls w')
               \<and> zl (device w'') = zl (device w') \<and> zr (device w'') = zr (device w')
               \<and> c_stick (device w'') = c_stick (device w')))"
proof -
  have tick: "\<not> is_device_reload_pending (device v')
         \<and> (if is_device_reload_pending (device v)
              then zl (device v') = buttons_ZL v \<and> zr (device v') = buttons_ZR v
                \<and> c_stick (device v') = analogs_CStick v
                \<and> (\<exists>pkt sch xq.
                      calls v' = calls v @
                        [CreateButtonDevice (buttons_ZL v), CreateButtonDevice (buttons_ZR v),
                         CreateAnalogDevice (analogs_CStick v), Send pkt, sch]
                      \<and> bit (pkt ! 4) 5 = (\<not> button_status v (buttons_ZL v))
                      \<and> bit (pkt ! 4) 6 = (\<not> button_status v (buttons_ZR v))
                      \<and> c_stick_to_u32 (fst (analog_status v (analogs_CStick v))) = Inr xq
                      \<and> take_bit 12 (drop_bit 8 (u32_of_bytes pkt)) = take_bit 12 xq)
              else zl (device v') = zl (device v) \<and> zr (device v') = zr (device v)
                \<and> c_stick (device v') = c_stick (device v)
                \<and> created (calls v') = created (calls v))"
    if "SendHIDStatus msToCycles u l v = Inr v'" for u l v v'
    using SendHIDStatus_Inr [OF that]
    by (cases "is_device_reload_pending (device v)")
      (auto simp: tick_zl_def tick_zr_def tick_c_stick_def)
  show ?thesis
  proof (intro conjI impI allI)
    show "is_device_reload_pending (device (ReloadInputDevices w))"
      by (simp add: ReloadInputDevices_def)
    show "ReloadInputDevices w = w\<lparr>device := (device w)\<lparr>is_device_reload_pending := True\<rparr>\<rparr>"
      by (simp add: ReloadInputDevices_def)
    show "\<exists>w'. SendHIDStatus msToCycles uninit cycles_late w = Inr w'" if "axes_in_range w"
      using that by (rule SendHIDStatus_returns)
  next
    fix w'
    assume a: "SendHIDStatus msToCycles uninit cycles_late w = Inr w'"
    show "\<not> is_device_reload_pending (device w')"
      using tick [OF a] by blast
    show "if is_device_reload_pending (device w)
              then zl (device w') = buttons_ZL w \<and> zr (device w') = buttons_ZR w
                \<and> c_stick (device w') = analogs_CStick w
                \<and> (\<exists>pkt sch xq.
                      calls w' = calls w @
                        [CreateButtonDevice (buttons_ZL w), CreateButtonDevice (buttons_ZR w),
                         CreateAnalogDevice (analogs_CStick w), Send pkt, sch]
                      \<and> bit (pkt ! 4) 5 = (\<not> button_status w (buttons_ZL w))
                      \<and> bit (pkt ! 4) 6 = (\<not> button_status w (buttons_ZR w))
                      \<and> c_stick_to_u32 (fst (analog_status w (analogs_CStick w))) = Inr xq
                      \<and> take_bit 12 (drop_bit 8 (u32_of_bytes pkt)) = take_bit 12 xq)
              else zl (device w') = zl (device w) \<and> zr (device w') = zr (device w)
                \<and> c_stick (device w') = c_stick (device w)
                \<and> created (calls w') = created (calls w)"
      using tick [OF a] by blast
    fix uninit2 late2 w''
    assume b: "SendHIDStatus msToCycles uninit2 late2 w' = Inr w''"
    have clear: "\<not> is_device_reload_pending (device w')"
      using tick [OF a] by blast
    show "\<not> is_device_reload_pending (device w'')"
      using tick [OF b] by blast
    show "created (calls w'') = created (calls w')" "zl (device w'') = zl (device w')"
      "zr (device w'') = zr (device w')" "c_stick (device w'') = c_stick (device w')"
      using tick [OF b] clear by simp_all
  qed
qed

theorem reload_flag_consumed_once_witness:
  "is_device_reload_pending (device remapped_world)
   \<and> axes_in_range remapped_world
   \<and> zl (device remapped_world) = ''zl'' \<and> c_stick (device remapped_world) = ''cstick''
   \<and> (\<exists>w'. SendHIDStatus sample_msToCycles (0, 0) 0 remapped_world = Inr w'
          \<and> \<not> is_device_reload_pending (device w')
          \<and> zl (device w') = ''l2'' \<and> c_stick (device w') = ''pad''
          \<and> created (calls w') = created (calls remapped_world) @
                [CreateButtonDevice ''l2'', CreateButtonDevice ''zr'', CreateAnalogDevice ''pad'']
          \<and> (\<exists>w''. SendHIDStatus sample_msToCycles (0, 0) 0 w' = Inr w''
                 \<and> \<not> is_device_reload_pending (device w'')
                 \<and> created (calls w'') = created (calls w')
                 \<and> zl (device w'') = ''l2'' \<and> c_stick (device w'') = ''pad''))"
proof -
  have pre: "is_device_reload_pending (device remapped_world)" "axes_in_range remapped_world"
    "zl (device remapped_world) = ''zl''" "c_stick (device remapped_world) = ''cstick''"
    by (simp_all add: remapped_world_eq sample_world_eq axes_in_range_def tick_c_stick_def)
  note T = reload_flag_consumed_once [of remapped_world sample_msToCycles "(0, 0)" 0]
  from T pre(2) obtain w' where w': "SendHIDStatus sample_msToCycles (0, 0) 0 remapped_world = Inr w'"
    by blast
  note B = T [THEN conjunct2, THEN conjunct2, THEN conjunct2, rule_format, OF w']
  from B pre(1) have clear: "\<not> is_device_reload_pending (device w')"
    and h: "zl (device w') = buttons_ZL remapped_world" "zr (device w') = buttons_ZR remapped_world"
      "c_stick (device w') = analogs_CStick remapped_world"
    and "\<exists>pkt sch. calls w' = calls remapped_world @
           [CreateButtonDevice (buttons_ZL remapped_world), CreateButtonDevice (buttons_ZR remapped_world),
            CreateAnalogDevice (analogs_CStick remapped_world), Send pkt, sch]"
    by auto
  then have h': "zl (device w') = ''l2''" "c_stick (device w') = ''pad''"
    and cr: "created (calls w') = created (calls remapped_world) @
                [CreateButtonDevice ''l2'', CreateButtonDevice ''zr'', CreateAnalogDevice ''pad'']"
    using SendHIDStatus_Inr [OF w']
    by (auto simp: remapped_world_eq sample_world_eq)
  have "analog_status w' = analog_status remapped_world"
    using SendHIDStatus_Inr [OF w'] by auto
  with clear h' have "axes_in_range w'"
    by (simp add: axes_in_range_def tick_c_stick_def remapped_world_eq sample_world_eq)
  then obtain w'' where w'': "SendHIDStatus sample_msToCycles (0, 0) 0 w' = Inr w''"
    using SendHIDStatus_returns by blast
  from B w'' have "\<not> is_device_reload_pending (device w'')" "created (calls w'') = created (calls w')"
    "zl (device w'') = zl (device w')" "c_stick (device w'') = c_stick (device w')"
    by blast+
  with w'' h' have "\<exists>w''. SendHIDStatus sample_msToCycles (0, 0) 0 w' = Inr w''
                 \<and> \<not> is_device_reload_pending (device w'')
                 \<and> created (calls w'') = created (calls w')
                 \<and> zl (device w'') = ''l2'' \<and> c_stick (device w'') = ''pad''"
    by simp
  with pre w' clear h' cr show ?thesis by blast
qed

text \<open>
  C8. \<open>Disconnect\<close> cancels every pending callback of the device and touches nothing else
  but the log of calls. A second \<open>Disconnect\<close> changes neither the device nor the event
  queue nor the packets sent; it only adds its own call to the log. With nothing pending
  the queue stays as it is. \<open>Disconnect\<close> has no failing branch.
\<close>

theorem Disconnect_idempotent:
  "pending_ticks (Disconnect w) = []
   \<and> event_queue (Disconnect w) = other_events w
   \<and> Disconnect w = w\<lparr>event_queue := other_events w,
                        calls := calls w @ [UnscheduleEvent_call (send_callback (device w)) 0]\<rparr>
   \<and> Disconnect (Disconnect w) =
       (Disconnect w)\<lparr>calls := calls (Disconnect w) @ [UnscheduleEvent_call (send_callback (device w)) 0]\<rparr>
   \<and> device (Disconnect (Disconnect w)) = device (Disconnect w)
   \<and> event_queue (Disconnect (Disconnect w)) = event_queue (Disconnect w)
   \<and> sent (calls (Disconnect (Disconnect w))) = sent (calls (Disconnect w))
   \<and> (pending_ticks w = [] \<longrightarrow> event_queue (Disconnect w) = event_queue w)"
proof -
  have none: "filter (\<lambda>ev. \<not> P ev) q = q" if "filter P q = []" for P :: "'a \<Rightarrow> bool" and q
    using that by (induction q) (auto split: if_splits)
  have same: "other_events (w\<lparr>event_queue := other_events w, calls := cs\<rparr>) = other_events w" for cs
    by (simp add: other_events_def)
  have "Disconnect (Disconnect w) =
       (Disconnect w)\<lparr>calls := calls (Disconnect w) @ [UnscheduleEvent_call (send_callback (device w)) 0]\<rparr>"
    using UnscheduleEvent_own [of "w\<lparr>event_queue := other_events w,
        calls := calls w @ [UnscheduleEvent_call (send_callback (device w)) 0]\<rparr>"]
    by (simp add: Disconnect_def UnscheduleEvent_own same)
  moreover have "pending_ticks w = [] \<longrightarrow> other_events w = event_queue w"
    unfolding pending_ticks_def other_events_def by (auto intro: none)
  ultimately show ?thesis
    by (simp add: Disconnect_def UnscheduleEvent_own pending_ticks_def other_events_def)
qed

theorem Disconnect_idempotent_witness:
  "pending_ticks sample_world = [] \<and> event_queue (Disconnect sample_world) = event_queue sample_world
   \<and> pending_ticks armed_world = [(1341615, 0, 0)]
   \<and> pending_ticks (Disconnect armed_world) = []
   \<and> event_queue (Disconnect (Disconnect armed_world)) = event_queue (Disconnect armed_world)
   \<and> device (Disconnect (Disconnect armed_world)) = device (Disconnect armed_world)"
proof -
  have "pending_ticks sample_world = []" "pending_ticks armed_world = [(1341615, 0, 0)]"
    by (simp_all add: pending_ticks_def own_tick_def armed_world_eq sample_world_eq)
  then show ?thesis
    using Disconnect_idempotent [of sample_world] Disconnect_idempotent [of armed_world]
    by metis
qed

text \<open>
  C9. \<open>Receive\<close> reads \<open>data[0]\<close> without looking at the size: the read is outside the
  vector exactly for the empty request, and no other access \<open>Receive\<close> or its handlers
  make can fall outside a container, so \<open>Receive\<close> has undefined behaviour exactly on the
  empty request.
\<close>

theorem Receive_faults_iff_empty:
  "(Receive msToCycles data w = Inl OutOfBounds) = (data = [])
   \<and> (vector_at data 0 = Inl OutOfBounds) = (data = [])
   \<and> (\<forall>e. Receive msToCycles data w = Inl e \<longrightarrow> data = [])"
proof -
  have "\<exists>w'. Receive msToCycles data w = Inr w'" if "data \<noteq> []"
    using that HandleReadCalibrationDataRequest_returns [of data w]
      HandleReadHIDStatusRequest_returns [of msToCycles data w]
    by (auto simp: Receive_def vector_at_def)
  moreover have "Receive msToCycles [] w = Inl OutOfBounds"
    by (simp add: Receive_def vector_at_def)
  ultimately show ?thesis
    by (cases "data = []") (auto simp: vector_at_def)
qed

theorem Receive_faults_iff_empty_witness:
  "Receive sample_msToCycles [] sample_world = Inl OutOfBounds
   \<and> Receive sample_msToCycles [3] sample_world \<noteq> Inl OutOfBounds"
  using Receive_faults_iff_empty [of sample_msToCycles "[]" sample_world]
    Receive_faults_iff_empty [of sample_msToCycles "[3]" sample_world]
  by simp

text \<open>
  C10. The delay of the next tick is not clamped: when the reported lateness exceeds
  \<open>msToCycles(hid_period)\<close>, the delay handed to \<open>ScheduleEvent\<close> is negative, and
  the new deadline lies before the current time.
\<close>

theorem late_tick_schedules_in_the_past:
  "(axes_in_range w \<longrightarrow> (\<exists>w'. SendHIDStatus msToCycles uninit cycles_late w = Inr w'))
   \<and> (\<forall>w'. SendHIDStatus msToCycles uninit cycles_late w = Inr w'
           \<and> msToCycles (uint (hid_period (device w))) < cycles_late \<longrightarrow>
         (\<exists>delay. delay < 0
            \<and> delay = msToCycles (uint (hid_period (device w))) - cycles_late
            \<and> last (calls w') = ScheduleEvent_call delay (send_callback (device w)) 0
            \<and> last (event_queue w') = (global_timer w + delay, send_callback (device w), 0)
            \<and> fst (last (event_queue w')) < global_timer w))"
proof (intro conjI impI allI)
  show "\<exists>w'. SendHIDStatus msToCycles uninit cycles_late w = Inr w'" if "axes_in_range w"
    using that by (rule SendHIDStatus_returns)
next
  fix w'
  assume a: "SendHIDStatus msToCycles uninit cycles_late w = Inr w'
           \<and> msToCycles (uint (hid_period (device w))) < cycles_late"
  from SendHIDStatus_Inr [OF a [THEN conjunct1]] obtain pkt cs where
    w': "event_queue w' = event_queue w @
             [(global_timer w + (msToCycles (uint (hid_period (device w))) - cycles_late),
               send_callback (device w), 0)]"
      "calls w' = calls w @ cs @ [Send pkt,
                 ScheduleEvent_call (msToCycles (uint (hid_period (device w))) - cycles_late)
                   (send_callback (device w)) 0]"
    by auto
  show "\<exists>delay. delay < 0
            \<and> delay = msToCycles (uint (hid_period (device w))) - cycles_late
            \<and> last (calls w') = ScheduleEvent_call delay (send_callback (device w)) 0
            \<and> last (event_queue w') = (global_timer w + delay, send_callback (device w), 0)
            \<and> fst (last (event_queue w')) < global_timer w"
    using a by (simp add: w')
qed

theorem late_tick_schedules_in_the_past_witness:
  "axes_in_range late_world
   \<and> sample_msToCycles (uint (hid_period (device late_world))) < 2000000
   \<and> (\<exists>w'. SendHIDStatus sample_msToCycles (0, 0) 2000000 late_world = Inr w'
          \<and> last (calls w') = ScheduleEvent_call (- 659385) 0 0
          \<and> last (event_queue w') = (1341622 - 659385, 0, 0))"
proof -
  have late: "sample_msToCycles (uint (hid_period (device late_world))) < 2000000"
    by (simp add: late_world_def armed_world_eq sample_world_eq sample_msToCycles_def)
  from late_tick_schedules_in_the_past [of late_world sample_msToCycles "(0, 0)" 2000000] late_world_axes
  obtain w' where w': "SendHIDStatus sample_msToCycles (0, 0) 2000000 late_world = Inr w'"
    by blast
  with late late_tick_schedules_in_the_past [of late_world sample_msToCycles "(0, 0)" 2000000]
  obtain delay where "delay = sample_msToCycles (uint (hid_period (device late_world))) - 2000000"
    and "last (calls w') = ScheduleEvent_call delay (send_callback (device late_world)) 0"
    and "last (event_queue w') = (global_timer late_world + delay, send_callback (device late_world), 0)"
    by blast
  then have "last (calls w') = ScheduleEvent_call (- 659385) 0 0"
    and "last (event_queue w') = (1341622 - 659385, 0, 0)"
    by (simp_all add: late_world_def armed_world_eq sample_world_eq sample_msToCycles_def)
  with w' late late_world_axes show ?thesis by blast
qed

end
